theory Spec2Isabelle
  imports Complex_Main
begin

section \<open>Data model of the meeting module (types.ts)\<close>

text \<open>
  A JavaScript number is an IEEE 754 double. The model takes a double as the rational it
  denotes, and every addition, subtraction, multiplication and division of the source is
  followed by the rounding of its exact result to the nearest double (see the section on
  double-precision arithmetic below). Comparisons and \<open>Math.round\<close>, \<open>Math.abs\<close> are exact
  on doubles: \<open>Math.round x\<close> is \<open>\<lfloor>x + 1/2\<rfloor>\<close> (halves go up). The rational \<open>2 ^ 1024\<close> stands
  for Infinity; NaN has no counterpart, so the model follows the source as long as no
  operation yields NaN. Counts and lengths are naturals.
\<close>

type_synonym number = rat

datatype Expression =
    Neutral | Happy | Sad | Angry | Fearful | Disgusted | Surprised | Smiling
  | Frowning | Confused | Skeptical | Thinking | Interested | Bored | Eye_roll

datatype Level = High | Medium | Low

datatype AudioSource = Whisper | Recall

record HeadPose =
  pitch :: number
  yaw :: number
  roll :: number

record RawTranscriptSegment =
  seg_text :: string
  startTime :: number
  endTime :: number
  speakerLabel :: "string option"
  confidence :: "number option"

record VisualObservation =
  timestamp :: number
  participantId :: string
  participantName :: "string option"
  isSpeaking :: bool
  speakingConfidence :: number
  expression :: Expression
  expressionConfidence :: number
  headPose :: "HeadPose option"

record DiarizedSegment =
  d_text :: string
  d_startTime :: number
  d_endTime :: number
  speakerId :: string
  speakerName :: string
  d_confidence :: number
  dominantExpression :: Expression
  d_expressionConfidence :: number
  expressions :: "(Expression \<times> int) list"
  d_isSpeaking :: bool
  engagement :: Level
  audioSource :: AudioSource
  visualMatch :: bool

record DiarizedParticipant =
  p_id :: string
  p_name :: string
  totalSpeakingTime :: number
  speakingPercentage :: int
  segmentCount :: nat
  p_dominantExpression :: Expression
  expressionTimeline :: "(number \<times> Expression) list"
  engagementLevel :: Level
  wordCount :: nat

record DiarizationResult =
  segments :: "DiarizedSegment list"
  participants :: "DiarizedParticipant list"
  duration :: number
  quality :: Level

section \<open>JavaScript helpers\<close>

text \<open>
  A JavaScript \<open>Map\<close> iterates in insertion order and \<open>set\<close> on a present key keeps the
  key's position: an association list with in-place update.
\<close>

fun Map_set :: "('k \<times> 'v) list \<Rightarrow> 'k \<Rightarrow> 'v \<Rightarrow> ('k \<times> 'v) list" where
  "Map_set [] k v = [(k, v)]"
| "Map_set ((k', v') # m) k v =
     (if k' = k then (k, v) # m else (k', v') # Map_set m k v)"

definition Map_get :: "('k \<times> 'v) list \<Rightarrow> 'k \<Rightarrow> 'v option" where
  "Map_get m k = map_of m k"

definition Map_has :: "('k \<times> 'v) list \<Rightarrow> 'k \<Rightarrow> bool" where
  "Map_has m k = (map_of m k \<noteq> None)"

text \<open>A JavaScript \<open>Set\<close> of strings, in insertion order.\<close>

definition Set_add :: "'a list \<Rightarrow> 'a \<Rightarrow> 'a list" where
  "Set_add s x = (if x \<in> set s then s else s @ [x])"

text \<open>\<open>x || d\<close> on an optional number: undefined and 0 are falsy.\<close>

definition num_or :: "number option \<Rightarrow> number \<Rightarrow> number" where
  "num_or x d = (case x of None \<Rightarrow> d | Some c \<Rightarrow> if c = 0 then d else c)"

text \<open>\<open>x || d\<close> on an optional string: undefined and the empty string are falsy.\<close>

definition str_or :: "string option \<Rightarrow> string \<Rightarrow> string" where
  "str_or x d = (case x of None \<Rightarrow> d | Some s \<Rightarrow> if s = [] then d else s)"

definition truthy :: "string option \<Rightarrow> bool" where
  "truthy x = (case x of None \<Rightarrow> False | Some s \<Rightarrow> s \<noteq> [])"

definition Math_round :: "number \<Rightarrow> int" where
  "Math_round x = \<lfloor>x + 1 / 2\<rfloor>"

definition Math_abs :: "number \<Rightarrow> number" where
  "Math_abs x = \<bar>x\<bar>"

section \<open>Double-precision arithmetic\<close>

text \<open>
  \<open>fl x\<close> is the double nearest to the rational \<open>x\<close>, ties to the even significand: the
  unit in the last place of \<open>x\<close> is \<open>2 ^ (e - 52)\<close> for the exponent \<open>e\<close> of \<open>x\<close>
  (\<open>2 ^ e \<le> \<bar>x\<bar> < 2 ^ (e + 1)\<close>), and \<open>2 ^ (- 1074)\<close> for the subnormal numbers; a result
  rounded to \<open>2 ^ 1024\<close> or beyond is Infinity. A decimal literal of the source denotes the
  double nearest to it.
\<close>

function bitLength :: "int \<Rightarrow> int" where
  "bitLength n = (if n \<le> 0 then 0 else 1 + bitLength (n div 2))"
  by pat_completeness auto
termination
  by (relation "measure nat") auto

declare bitLength.simps [simp del]

definition pow2 :: "int \<Rightarrow> rat" where
  "pow2 k = (if k \<ge> 0 then of_int (2 ^ nat k) else 1 / of_int (2 ^ nat (- k)))"

definition exponentOf :: "rat \<Rightarrow> int" where
  "exponentOf x =
     (let e0 = bitLength (fst (quotient_of x)) - bitLength (snd (quotient_of x))
      in if x < pow2 e0 then e0 - 1 else e0)"

definition roundTiesToEven :: "rat \<Rightarrow> int" where
  "roundTiesToEven y =
     (let f = \<lfloor>y\<rfloor>; r = y - of_int f
      in if r < 1 / 2 then f else if r > 1 / 2 then f + 1 else if even f then f else f + 1)"

definition fl :: "rat \<Rightarrow> number" where
  "fl x =
     (if x = 0 then 0
      else let u = pow2 (max (exponentOf \<bar>x\<bar>) (- 1022) - 52);
               y = of_int (roundTiesToEven (x / u)) * u
           in if y \<noteq> 0 \<and> exponentOf \<bar>y\<bar> \<ge> 1024 then sgn x * pow2 1024 else y)"

definition literal :: "rat \<Rightarrow> number" where
  "literal c = fl c"

definition fadd :: "number \<Rightarrow> number \<Rightarrow> number" where
  "fadd a b = fl (a + b)"

definition fsub :: "number \<Rightarrow> number \<Rightarrow> number" where
  "fsub a b = fl (a - b)"

definition fmul :: "number \<Rightarrow> number \<Rightarrow> number" where
  "fmul a b = fl (a * b)"

text \<open>The source divides by a length or by a total it has tested to be positive.\<close>

definition fdiv :: "number \<Rightarrow> number \<Rightarrow> number" where
  "fdiv a b = fl (a / b)"

text \<open>Decimal rendering of a natural number, for the template \<open>`Participant ${n}`\<close>.\<close>

definition digit_char :: "nat \<Rightarrow> char" where
  "digit_char d = char_of (48 + d)"

fun string_of_nat :: "nat \<Rightarrow> string" where
  "string_of_nat n =
     (if n < 10 then [digit_char n]
      else string_of_nat (n div 10) @ [digit_char (n mod 10)])"

declare string_of_nat.simps [simp del]

text \<open>\<open>text.split(/\s+/).filter(Boolean).length\<close>: the number of maximal runs of
  non-whitespace characters. Strings are byte strings here, so \<open>\s\<close> is its ASCII part:
  space, tab, line feed, vertical tab, form feed and carriage return.\<close>

definition is_space :: "char \<Rightarrow> bool" where
  "is_space c = (c \<in> set [CHR '' '', CHR 0x09, CHR 0x0A, CHR 0x0B, CHR 0x0C, CHR 0x0D])"

fun count_words :: "bool \<Rightarrow> string \<Rightarrow> nat" where
  "count_words inword [] = 0"
| "count_words inword (c # cs) =
     (if is_space c then count_words False cs
      else (if inword then 0 else 1) + count_words True cs)"

section \<open>The diarization engine (diarization.ts)\<close>

subsection \<open>buildSpeakerNameMap\<close>

definition nameFromObservation ::
    "(string \<times> string) list \<Rightarrow> VisualObservation \<Rightarrow> (string \<times> string) list" where
  "nameFromObservation nameMap obs =
     (if truthy (participantName obs) \<and> \<not> Map_has nameMap (participantId obs)
      then Map_set nameMap (participantId obs) (the (participantName obs))
      else nameMap)"

definition nameFromList ::
    "string list \<Rightarrow> (string \<times> string) list \<times> nat \<Rightarrow> string
       \<Rightarrow> (string \<times> string) list \<times> nat" where
  "nameFromList participantNames acc pid =
     (case acc of (nameMap, nameIndex) \<Rightarrow>
        if \<not> Map_has nameMap pid \<and> nameIndex < length participantNames
        then (Map_set nameMap pid (participantNames ! nameIndex), nameIndex + 1)
        else (nameMap, nameIndex))"

definition nameUnknown ::
    "(string \<times> string) list \<times> nat \<Rightarrow> string \<Rightarrow> (string \<times> string) list \<times> nat" where
  "nameUnknown acc pid =
     (case acc of (nameMap, unknownCount) \<Rightarrow>
        if \<not> Map_has nameMap pid
        then (Map_set nameMap pid (''Participant '' @ string_of_nat unknownCount),
              unknownCount + 1)
        else (nameMap, unknownCount))"

definition buildSpeakerNameMap ::
    "VisualObservation list \<Rightarrow> string list \<Rightarrow> (string \<times> string) list" where
  "buildSpeakerNameMap observations participantNames =
     (let nameMap1 = foldl nameFromObservation [] observations;
          uniqueParticipants = foldl Set_add [] (map participantId observations);
          nameMap2 = fst (foldl (nameFromList participantNames) (nameMap1, 0) uniqueParticipants)
      in fst (foldl nameUnknown (nameMap2, 1) uniqueParticipants))"

subsection \<open>Scores of the speaking observations\<close>

definition inWindow :: "RawTranscriptSegment \<Rightarrow> VisualObservation \<Rightarrow> bool" where
  "inWindow seg v = (timestamp v \<ge> startTime seg \<and> timestamp v \<le> endTime seg)"

definition speaking :: "VisualObservation \<Rightarrow> bool" where
  "speaking v = (isSpeaking v \<and> speakingConfidence v > literal (3 / 10))"

definition addScore ::
    "(string \<times> number) list \<Rightarrow> VisualObservation \<Rightarrow> (string \<times> number) list" where
  "addScore counts obs =
     Map_set counts (participantId obs)
       (fadd (num_or (Map_get counts (participantId obs)) 0) (speakingConfidence obs))"

definition bestOf :: "string \<times> number \<Rightarrow> string \<times> number \<Rightarrow> string \<times> number" where
  "bestOf best entry =
     (case best of (bestPid, maxScore) \<Rightarrow> case entry of (pid, score) \<Rightarrow>
        if score > maxScore then (pid, score) else (bestPid, maxScore))"

definition pickBest :: "string \<Rightarrow> (string \<times> number) list \<Rightarrow> string" where
  "pickBest initial counts = fst (foldl bestOf (initial, 0) counts)"

subsection \<open>mapSpeakerLabelsToParticipants\<close>

definition groupByLabel ::
    "(string \<times> RawTranscriptSegment list) list \<Rightarrow> RawTranscriptSegment
       \<Rightarrow> (string \<times> RawTranscriptSegment list) list" where
  "groupByLabel segmentsByLabel seg =
     (if \<not> truthy (speakerLabel seg) then segmentsByLabel
      else let label = the (speakerLabel seg);
               existing = (case Map_get segmentsByLabel label of None \<Rightarrow> [] | Some l \<Rightarrow> l)
           in Map_set segmentsByLabel label (existing @ [seg]))"

definition scoreSegment ::
    "VisualObservation list \<Rightarrow> (string \<times> number) list \<Rightarrow> RawTranscriptSegment
       \<Rightarrow> (string \<times> number) list" where
  "scoreSegment visual participantScores seg =
     foldl addScore participantScores (filter (\<lambda>v. inWindow seg v \<and> speaking v) visual)"

definition mapLabel ::
    "VisualObservation list \<Rightarrow> (string \<times> string \<times> string) list
       \<Rightarrow> string \<times> RawTranscriptSegment list \<Rightarrow> (string \<times> string \<times> string) list" where
  "mapLabel visual labelMap entry =
     (case entry of (label, segs) \<Rightarrow>
        let participantScores = foldl (scoreSegment visual) [] segs;
            bestPid = pickBest [] participantScores
        in if bestPid \<noteq> []
           then let name = str_or (case find (\<lambda>v. participantId v = bestPid) visual of
                                     None \<Rightarrow> None | Some v \<Rightarrow> participantName v) label
                in Map_set labelMap label (bestPid, name)
           else labelMap)"

definition mapSpeakerLabelsToParticipants ::
    "RawTranscriptSegment list \<Rightarrow> VisualObservation list
       \<Rightarrow> (string \<times> string \<times> string) list" where
  "mapSpeakerLabelsToParticipants transcript visual =
     foldl (mapLabel visual) [] (foldl groupByLabel [] transcript)"

subsection \<open>analyzeExpressionsDuringSegment\<close>

definition countExpression :: "(Expression \<times> nat) list \<Rightarrow> Expression \<Rightarrow> (Expression \<times> nat) list" where
  "countExpression counts e =
     Map_set counts e ((case Map_get counts e of None \<Rightarrow> 0 | Some c \<Rightarrow> c) + 1)"

definition moreFrequent :: "Expression \<times> nat \<Rightarrow> Expression \<times> nat \<Rightarrow> Expression \<times> nat" where
  "moreFrequent best entry =
     (case best of (dominant, maxCount) \<Rightarrow> case entry of (expr, count) \<Rightarrow>
        if count > maxCount then (expr, count) else (dominant, maxCount))"

definition analyzeExpressionsDuringSegment ::
    "VisualObservation list \<Rightarrow> Expression \<times> number \<times> (Expression \<times> int) list" where
  "analyzeExpressionsDuringSegment observations =
     (if length observations = 0 then (Neutral, 1 / 2, [(Neutral, 100)])
      else
        let counts = foldl countExpression [] (map expression observations);
            dominant = fst (foldl moreFrequent (Neutral, 0) counts);
            total = length observations;
            distribution =
              sort_key (\<lambda>(e, percentage). - percentage)
                (map (\<lambda>(e, count). (e, Math_round (fmul (fdiv (of_nat count) (of_nat total)) 100)))
                   counts);
            avgConfidence =
              fdiv (foldl (\<lambda>s obs. fadd s (expressionConfidence obs)) 0 observations)
                (of_nat total)
        in (dominant, avgConfidence, distribution))"

subsection \<open>assessEngagement\<close>

definition engagementOf :: "number \<Rightarrow> VisualObservation \<Rightarrow> number" where
  "engagementOf engagementScore obs =
     (let s1 = (case headPose obs of
                  Some hp \<Rightarrow>
                    (let lookingAway = (Math_abs (yaw hp) > 30 \<or> Math_abs (pitch hp) > 20)
                     in fadd engagementScore (if lookingAway then - 1 else 1))
                | None \<Rightarrow> fadd engagementScore (1 / 2));
          s2 = (if expression obs \<noteq> Neutral \<and> expression obs \<noteq> Bored
                then fadd s1 (1 / 2) else s1)
      in if isSpeaking obs then fadd s2 1 else s2)"

definition assessEngagement :: "VisualObservation list \<Rightarrow> Level" where
  "assessEngagement observations =
     (if length observations = 0 then Medium
      else
        let engagementScore = foldl engagementOf 0 observations;
            avgScore = fdiv engagementScore (of_nat (length observations))
        in if avgScore > 1 then High else if avgScore > literal (3 / 10) then Medium else Low)"

subsection \<open>The loop body of diarize (one transcript segment)\<close>

definition diarizeSegment ::
    "VisualObservation list \<Rightarrow> (string \<times> string) list \<Rightarrow> (string \<times> string \<times> string) list
       \<Rightarrow> RawTranscriptSegment \<Rightarrow> DiarizedSegment" where
  "diarizeSegment sortedVisual speakerNameMap speakerLabelMap seg =
     (let overlapping = filter (inWindow seg) sortedVisual;
          speakerId0 = ''unknown'';
          speakerName0 = str_or (speakerLabel seg) ''Unknown'';
          speakingObs = filter speaking overlapping;
          (speakerId1, speakerName1, visualMatch1) =
            (if length speakingObs > 0
             then let speakerCounts = foldl addScore [] speakingObs;
                      pid = pickBest speakerId0 speakerCounts
                  in (pid, str_or (Map_get speakerNameMap pid) speakerName0, True)
             else (speakerId0, speakerName0, False));
          (speakerId2, speakerName2) =
            (if \<not> visualMatch1 \<and> truthy (speakerLabel seg)
                  \<and> Map_has speakerLabelMap (the (speakerLabel seg))
             then the (Map_get speakerLabelMap (the (speakerLabel seg)))
             else (speakerId1, speakerName1));
          (dominant, avgConfidence, distribution) = analyzeExpressionsDuringSegment overlapping
      in \<lparr> d_text = seg_text seg,
           d_startTime = startTime seg,
           d_endTime = endTime seg,
           speakerId = speakerId2,
           speakerName = speakerName2,
           d_confidence = (if visualMatch1 then literal (9 / 10)
                           else num_or (confidence seg) (1 / 2)),
           dominantExpression = dominant,
           d_expressionConfidence = avgConfidence,
           expressions = distribution,
           d_isSpeaking = True,
           engagement = assessEngagement overlapping,
           audioSource = Whisper,
           visualMatch = visualMatch1 \<rparr>)"

subsection \<open>buildParticipantSummaries\<close>

definition newParticipant :: "DiarizedSegment \<Rightarrow> DiarizedParticipant" where
  "newParticipant seg =
     \<lparr> p_id = speakerId seg,
       p_name = speakerName seg,
       totalSpeakingTime = 0,
       speakingPercentage = 0,
       segmentCount = 0,
       p_dominantExpression = Neutral,
       expressionTimeline = [],
       engagementLevel = Medium,
       wordCount = 0 \<rparr>"

definition addSegment ::
    "(string \<times> DiarizedParticipant) list \<Rightarrow> DiarizedSegment
       \<Rightarrow> (string \<times> DiarizedParticipant) list" where
  "addSegment participantMap seg =
     (let participant = (case Map_get participantMap (speakerId seg) of
                           None \<Rightarrow> newParticipant seg | Some p \<Rightarrow> p)
      in Map_set participantMap (speakerId seg)
           (participant
              \<lparr> totalSpeakingTime :=
                  fadd (totalSpeakingTime participant) (fsub (d_endTime seg) (d_startTime seg)),
                segmentCount := segmentCount participant + 1,
                wordCount := wordCount participant + count_words False (d_text seg),
                expressionTimeline :=
                  expressionTimeline participant @ [(d_startTime seg, dominantExpression seg)] \<rparr>))"

text \<open>\<open>(participant.totalSpeakingTime / totalSpeaking) * 100\<close>\<close>

definition sharePercent :: "number \<Rightarrow> number \<Rightarrow> number" where
  "sharePercent speakingTime totalSpeaking = fmul (fdiv speakingTime totalSpeaking) 100"

text \<open>\<open>[...participantMap.values()].reduce((s, p) => s + p.totalSpeakingTime, 0)\<close>\<close>

definition sumSpeakingTime :: "DiarizedParticipant list \<Rightarrow> number" where
  "sumSpeakingTime ps = foldl (\<lambda>s p. fadd s (totalSpeakingTime p)) 0 ps"

definition summarize ::
    "VisualObservation list \<Rightarrow> number \<Rightarrow> DiarizedParticipant \<Rightarrow> DiarizedParticipant" where
  "summarize visual totalSpeaking participant =
     (let exprCounts = foldl countExpression [] (map snd (expressionTimeline participant));
          participantVisual = filter (\<lambda>v. participantId v = p_id participant) visual
      in participant
           \<lparr> speakingPercentage :=
               (if totalSpeaking > 0
                then Math_round (sharePercent (totalSpeakingTime participant) totalSpeaking)
                else 0),
             p_dominantExpression :=
               fst (foldl moreFrequent (p_dominantExpression participant, 0) exprCounts),
             engagementLevel :=
               (if length participantVisual > 0
                then let engaged = length (filter (\<lambda>v. expression v \<noteq> Bored \<and> expression v \<noteq> Neutral)
                                             participantVisual);
                         ratio = fdiv (of_nat engaged) (of_nat (length participantVisual))
                     in if ratio > 1 / 2 then High
                        else if ratio > literal (1 / 5) then Medium else Low
                else engagementLevel participant) \<rparr>)"

definition buildParticipantSummaries ::
    "DiarizedSegment list \<Rightarrow> VisualObservation list \<Rightarrow> (string \<times> string) list
       \<Rightarrow> DiarizedParticipant list" where
  "buildParticipantSummaries segs visual nameMap =
     (let participantMap = foldl addSegment [] segs;
          totalSpeaking = sumSpeakingTime (map snd participantMap)
      in map (summarize visual totalSpeaking) (map snd participantMap))"

subsection \<open>The service and diarize\<close>

record SpeakerDiarizationServiceImpl =
  observations :: "VisualObservation list"

definition addVisualObservation ::
    "SpeakerDiarizationServiceImpl \<Rightarrow> VisualObservation \<Rightarrow> SpeakerDiarizationServiceImpl" where
  "addVisualObservation this observation =
     this \<lparr> observations := observations this @ [observation] \<rparr>"

definition getVisualObservations :: "SpeakerDiarizationServiceImpl \<Rightarrow> VisualObservation list" where
  "getVisualObservations this = observations this"

definition reset :: "SpeakerDiarizationServiceImpl \<Rightarrow> SpeakerDiarizationServiceImpl" where
  "reset this = this \<lparr> observations := [] \<rparr>"

text \<open>
  \<open>sort\<close> with the comparator \<open>(a, b) => a.startTime - b.startTime\<close> is a stable sort by
  the key; \<open>sort_key\<close> is one. diarize reads \<open>this.observations\<close> and assigns no field of
  the service: the service is returned as it was received.
\<close>

definition diarize ::
    "SpeakerDiarizationServiceImpl \<Rightarrow> RawTranscriptSegment list \<Rightarrow> VisualObservation list
       \<Rightarrow> string list \<Rightarrow> DiarizationResult \<times> SpeakerDiarizationServiceImpl" where
  "diarize this transcriptSegments visualObservations participantNames =
     (let allVisual = observations this @ visualObservations;
          sortedTranscript = sort_key startTime transcriptSegments;
          sortedVisual = sort_key timestamp allVisual;
          speakerNameMap = buildSpeakerNameMap sortedVisual participantNames;
          speakerLabelMap = mapSpeakerLabelsToParticipants sortedTranscript sortedVisual;
          segs = map (diarizeSegment sortedVisual speakerNameMap speakerLabelMap) sortedTranscript;
          parts = buildParticipantSummaries segs sortedVisual speakerNameMap;
          dur = (if length sortedTranscript > 0
                 then fsub (endTime (last sortedTranscript)) (startTime (hd sortedTranscript))
                 else 0);
          matchRate = fdiv (of_nat (length (filter visualMatch segs)))
                        (of_nat (max (length segs) 1));
          q = (if matchRate > literal (7 / 10) then High
               else if matchRate > literal (3 / 10) then Medium else Low)
      in (\<lparr> segments = segs, participants = parts, duration = dur, quality = q \<rparr>, this))"

section \<open>The pipeline orchestrator (pipeline.ts)\<close>

text \<open>
  The orchestrator is modelled by explicit state passing. A call is one atomic step: the
  callbacks of the duration ticker and of frame capture are not interleaved with it.
  What the collaborators answer is read from an environment record. An awaited call to a
  collaborator may reject (the environment then holds the message of the error); the
  synchronous calls (\<open>faceDetection.reset\<close>, \<open>faceDetection.getParticipants\<close>, the capture
  clean-up callback, \<open>console\<close>, the listeners, whose exceptions \<open>emit\<close> catches) return.
  A thrown \<open>Error\<close> is the value \<open>JsError message\<close>; events and console lines are
  appended to two logs kept in the model state. The timestamp of an event is left out.
\<close>

datatype js_error = JsError string

fun message :: "js_error \<Rightarrow> string" where
  "message (JsError m) = m"

datatype RecallBotStatus =
    Rb_ready | Rb_joining | Rb_in_waiting_room | Rb_in_call | Rb_recording
  | Rb_processing | Rb_done | Rb_error | Rb_fatal

record RecallRecording =
  mediaUrl :: "string option"
  audioUrl :: "string option"

record RecallTranscriptSegment =
  rt_speakerId :: nat
  rt_speakerName :: string
  rt_text :: string
  rt_startTime :: number
  rt_endTime :: number
  rt_confidence :: "number option"

record RecallTranscript =
  rt_segments :: "RecallTranscriptSegment list"

record TranscriptSegment =
  tr_speakerName :: string
  tr_text :: string
  tr_startTime :: number
  tr_endTime :: number
  tr_confidence :: number

record TranscriptionResult =
  tr_segments :: "TranscriptSegment list"
  fullText :: string

record DetectedParticipant =
  dp_id :: string
  dp_name :: "string option"
  dp_isSpeaking :: bool
  dp_speakingConfidence :: number
  currentEmotion :: Expression
  expressionHistory :: "(number \<times> string \<times> number) list"

record AnalysisInput =
  ai_meetingTitle :: string
  ai_meetingDate :: nat
  ai_duration :: nat
  ai_platform :: string
  ai_participants :: "(string \<times> string) list"
  ai_transcriptSegments :: "(string \<times> string \<times> number \<times> number) list"
  expressionData :: "(string \<times> number \<times> string \<times> number) list"

record MeetingReview =
  review_id :: string
  summary :: string

datatype PipelineStatus =
    Idle | Bot_joining | Capturing | Bot_processing | Transcribing | Analyzing
  | Generating_review | Complete | Error

record PipelineState =
  status :: PipelineStatus
  meetingTitle :: string
  meetingUrl :: "string option"
  platform :: string
  botId :: "string option"
  captureActive :: bool
  participantCount :: nat
  ps_segmentCount :: nat
  ps_duration :: nat
  error :: "string option"
  reviewId :: "string option"
  startedAt :: "nat option"

record PipelineConfig =
  cfg_meetingUrl :: string
  cfg_meetingTitle :: string
  cfg_platform :: string
  captureSourceId :: "string option"
  participantNames :: "string list option"
  recallApiKey :: "string option"

datatype PipelineEventType =
    Status_changed | Participant_detected | Transcript_segment | Expression_update
  | Review_ready | Error_event

datatype EventData =
    StateData PipelineState
  | ErrorData string
  | ReviewData string MeetingReview

record PipelineEvent =
  ev_type :: PipelineEventType
  ev_data :: EventData

datatype LogLevel = Log | Warn | Err

record MeetingPipelineServiceImpl =
  state :: PipelineState
  diarization :: SpeakerDiarizationServiceImpl
  durationTimer :: "nat option"
  liveTimers :: "nat list"
  captureCleanup :: bool
  config :: "PipelineConfig option"
  audioFilePath :: "string option"
  emitted :: "PipelineEvent list"
  console :: "(LogLevel \<times> string) list"

text \<open>The field initialisers of the class.\<close>

definition initialState :: PipelineState where
  "initialState =
     \<lparr> status = Idle, meetingTitle = [], meetingUrl = None, platform = [], botId = None,
       captureActive = False, participantCount = 0, ps_segmentCount = 0, ps_duration = 0,
       error = None, reviewId = None, startedAt = None \<rparr>"

definition newPipeline :: MeetingPipelineServiceImpl where
  "newPipeline =
     \<lparr> state = initialState, diarization = \<lparr> observations = [] \<rparr>, durationTimer = None,
       liveTimers = [], captureCleanup = False, config = None, audioFilePath = None,
       emitted = [], console = [] \<rparr>"

definition emit ::
    "PipelineEventType \<Rightarrow> EventData \<Rightarrow> MeetingPipelineServiceImpl \<Rightarrow> MeetingPipelineServiceImpl" where
  "emit type data this = this \<lparr> emitted := emitted this @ [\<lparr> ev_type = type, ev_data = data \<rparr>] \<rparr>"

definition console_out ::
    "LogLevel \<Rightarrow> string \<Rightarrow> MeetingPipelineServiceImpl \<Rightarrow> MeetingPipelineServiceImpl" where
  "console_out level msg this = this \<lparr> console := console this @ [(level, msg)] \<rparr>"

definition setStatus :: "PipelineStatus \<Rightarrow> MeetingPipelineServiceImpl \<Rightarrow> MeetingPipelineServiceImpl" where
  "setStatus st this = this \<lparr> state := (state this) \<lparr> status := st \<rparr> \<rparr>"

definition isActive :: "MeetingPipelineServiceImpl \<Rightarrow> bool" where
  "isActive this =
     (status (state this) \<noteq> Idle \<and> status (state this) \<noteq> Complete \<and> status (state this) \<noteq> Error)"

definition resetState :: "MeetingPipelineServiceImpl \<Rightarrow> MeetingPipelineServiceImpl" where
  "resetState this = this \<lparr> config := None, audioFilePath := None \<rparr>"

subsection \<open>Timers\<close>

text \<open>\<open>setInterval\<close> hands out the handle the environment names and adds it to the live
  timers of the runtime; \<open>clearInterval\<close> removes it.\<close>

definition startDurationTimer :: "nat \<Rightarrow> MeetingPipelineServiceImpl \<Rightarrow> MeetingPipelineServiceImpl" where
  "startDurationTimer handle this =
     this \<lparr> durationTimer := Some handle, liveTimers := liveTimers this @ [handle] \<rparr>"

definition stopDurationTimer :: "MeetingPipelineServiceImpl \<Rightarrow> MeetingPipelineServiceImpl" where
  "stopDurationTimer this =
     (case durationTimer this of
        Some handle \<Rightarrow> this \<lparr> durationTimer := None, liveTimers := removeAll handle (liveTimers this) \<rparr>
      | None \<Rightarrow> this)"

subsection \<open>start\<close>

record StartEnv =
  now :: nat
  createBot :: "string + string"
  timerHandle :: nat
  electronAvailable :: bool
  electronStartCapture :: "string option"

definition deployBot ::
    "StartEnv \<Rightarrow> PipelineConfig \<Rightarrow> MeetingPipelineServiceImpl \<Rightarrow> js_error + MeetingPipelineServiceImpl" where
  "deployBot env cfg this =
     (case createBot env of
        Inl m \<Rightarrow> Inl (JsError (''Failed to deploy bot: '' @ m))
      | Inr bot_id \<Rightarrow> Inr (this \<lparr> state := (state this) \<lparr> botId := Some bot_id \<rparr> \<rparr>))"

definition startCapture ::
    "StartEnv \<Rightarrow> string \<Rightarrow> MeetingPipelineServiceImpl \<Rightarrow> MeetingPipelineServiceImpl" where
  "startCapture env sourceId this =
     (if \<not> electronAvailable env
      then console_out Warn ''Electron not available for capture'' this
      else case electronStartCapture env of
             Some m \<Rightarrow> console_out Err (''Failed to start capture: '' @ m) this
           | None \<Rightarrow>
               (let this1 = this \<lparr> captureCleanup := True \<rparr>;
                    this2 = this1 \<lparr> state := (state this1) \<lparr> captureActive := True \<rparr> \<rparr>
                in emit Status_changed (StateData (state this2)) this2))"

definition startFailed :: "js_error \<Rightarrow> MeetingPipelineServiceImpl \<Rightarrow> MeetingPipelineServiceImpl" where
  "startFailed err this =
     (let this1 = setStatus Error this;
          this2 = this1 \<lparr> state := (state this1) \<lparr> error := Some (message err) \<rparr> \<rparr>;
          this3 = emit Error_event (ErrorData (message err)) this2
      in emit Status_changed (StateData (state this3)) this3)"

text \<open>Lines 114 to 129 of start: the new session's state, announced, and the resets.\<close>

definition beginSession ::
    "StartEnv \<Rightarrow> PipelineConfig \<Rightarrow> MeetingPipelineServiceImpl \<Rightarrow> MeetingPipelineServiceImpl" where
  "beginSession env cfg this =
     (let this1 = this \<lparr> config := Some cfg,
                        state := \<lparr> status = Bot_joining,
                                   meetingTitle = cfg_meetingTitle cfg,
                                   meetingUrl = Some (cfg_meetingUrl cfg),
                                   platform = cfg_platform cfg,
                                   botId = None,
                                   captureActive = False,
                                   participantCount = 0,
                                   ps_segmentCount = 0,
                                   ps_duration = 0,
                                   error = None,
                                   reviewId = None,
                                   startedAt = Some (now env) \<rparr> \<rparr>;
          this2 = emit Status_changed (StateData (state this1)) this1
      in this2 \<lparr> diarization := reset (diarization this2) \<rparr>)"

definition start ::
    "StartEnv \<Rightarrow> PipelineConfig \<Rightarrow> MeetingPipelineServiceImpl
       \<Rightarrow> (js_error + unit) \<times> MeetingPipelineServiceImpl" where
  "start env cfg this =
     (if isActive this
      then (Inl (JsError ''A pipeline is already active. Stop it first.''), this)
      else
        let this3 = beginSession env cfg this
        in case deployBot env cfg this3 of
             Inl err \<Rightarrow> (Inl err, startFailed err this3)
           | Inr this4 \<Rightarrow>
               (let this5 = startDurationTimer (timerHandle env) this4;
                    this6 = (if truthy (captureSourceId cfg)
                             then startCapture env (the (captureSourceId cfg)) this5
                             else this5);
                    this7 = setStatus Capturing this6
                in (Inr (), emit Status_changed (StateData (state this7)) this7)))"

subsection \<open>waitForBotProcessing\<close>

text \<open>
  The loop reads the clock at the top of every round, polls the bot (the \<open>i\<close>-th poll
  takes \<open>latency i\<close> milliseconds and answers \<open>getBotStatus i\<close>, or rejects), and sleeps
  3000 milliseconds. A rejected poll is ignored.
\<close>

record PollEnv =
  getBotStatus :: "string \<Rightarrow> nat \<Rightarrow> string + RecallBotStatus option"
  latency :: "nat \<Rightarrow> nat"

record WaitResult =
  returnedEarly :: bool
  polls :: nat
  finishedAt :: nat

definition pollSaysStop :: "string + RecallBotStatus option \<Rightarrow> bool" where
  "pollSaysStop answer =
     (case answer of
        Inr (Some st) \<Rightarrow> st = Rb_done \<or> st = Rb_error
      | Inr None \<Rightarrow> False
      | Inl m \<Rightarrow> False)"

function waitLoop :: "PollEnv \<Rightarrow> string \<Rightarrow> nat \<Rightarrow> nat \<Rightarrow> nat \<Rightarrow> nat \<Rightarrow> WaitResult" where
  "waitLoop env bot_id startedWaiting maxWaitMs clock i =
     (if clock - startedWaiting < maxWaitMs
      then (if pollSaysStop (getBotStatus env bot_id i)
            then \<lparr> returnedEarly = True, polls = i + 1, finishedAt = clock + latency env i \<rparr>
            else waitLoop env bot_id startedWaiting maxWaitMs (clock + latency env i + 3000) (i + 1))
      else \<lparr> returnedEarly = False, polls = i, finishedAt = clock \<rparr>)"
  by pat_completeness auto
termination
  by (relation "measure (\<lambda>(env, bot_id, startedWaiting, maxWaitMs, clock, i).
                            startedWaiting + maxWaitMs - clock)") auto

declare waitLoop.simps [simp del]

definition waitForBotProcessing ::
    "PollEnv \<Rightarrow> string \<Rightarrow> nat \<Rightarrow> nat \<Rightarrow> MeetingPipelineServiceImpl
       \<Rightarrow> WaitResult \<times> MeetingPipelineServiceImpl" where
  "waitForBotProcessing env bot_id clock maxWaitMs this =
     (let r = waitLoop env bot_id clock maxWaitMs clock 0
      in (r, if returnedEarly r then this else console_out Warn ''Bot processing timed out'' this))"

subsection \<open>stop\<close>

record StopEnv =
  stop_now :: nat
  electronHasStopCapture :: bool
  electronStopCapture :: "string option"
  stopBot :: "string \<Rightarrow> string option"
  pollEnv :: PollEnv
  getRecording :: "string \<Rightarrow> string + RecallRecording option"
  getTranscript :: "string \<Rightarrow> string + RecallTranscript option"
  transcribeFile :: "string \<Rightarrow> string + TranscriptionResult"
  getParticipants :: "DetectedParticipant list"
  generateReview :: "AnalysisInput \<Rightarrow> string + MeetingReview"

definition stopCapture :: "StopEnv \<Rightarrow> MeetingPipelineServiceImpl \<Rightarrow> MeetingPipelineServiceImpl" where
  "stopCapture env this =
     (let this1 = (if captureCleanup this then this \<lparr> captureCleanup := False \<rparr> else this);
          this2 = (if electronHasStopCapture env
                   then (case electronStopCapture env of
                           Some m \<Rightarrow> console_out Warn (''Stop capture error: '' @ m) this1
                         | None \<Rightarrow> this1)
                   else this1)
      in this2 \<lparr> state := (state this2) \<lparr> captureActive := False \<rparr> \<rparr>)"

definition fromRecall :: "RecallTranscriptSegment \<Rightarrow> RawTranscriptSegment" where
  "fromRecall seg =
     \<lparr> seg_text = rt_text seg,
       startTime = rt_startTime seg,
       endTime = rt_endTime seg,
       speakerLabel = Some (''Speaker '' @ string_of_nat (rt_speakerId seg)),
       confidence = rt_confidence seg \<rparr>"

definition fromWhisper :: "TranscriptSegment \<Rightarrow> RawTranscriptSegment" where
  "fromWhisper seg =
     \<lparr> seg_text = tr_text seg,
       startTime = tr_startTime seg,
       endTime = tr_endTime seg,
       speakerLabel = (if tr_speakerName seg = [] then None else Some (tr_speakerName seg)),
       confidence = Some (tr_confidence seg) \<rparr>"

definition botFailed :: "string \<Rightarrow> MeetingPipelineServiceImpl \<Rightarrow> MeetingPipelineServiceImpl" where
  "botFailed m this =
     console_out Warn (''Bot processing failed, will try local transcription: '' @ m) this"

text \<open>Lines 160 to 185 of stop: the transcript and the recording of the bot.\<close>

definition retrieveFromBot ::
    "StopEnv \<Rightarrow> MeetingPipelineServiceImpl
       \<Rightarrow> RawTranscriptSegment list \<times> MeetingPipelineServiceImpl" where
  "retrieveFromBot env this =
     (if truthy (botId (state this))
      then
        let bot_id = the (botId (state this))
        in case stopBot env bot_id of
             Some m \<Rightarrow> ([], botFailed m this)
           | None \<Rightarrow>
               (let this1 = snd (waitForBotProcessing (pollEnv env) bot_id (stop_now env) 120000 this)
                in case getRecording env bot_id of
                     Inl m \<Rightarrow> ([], botFailed m this1)
                   | Inr recording \<Rightarrow>
                       (let this2 = (case recording of
                                       Some r \<Rightarrow> if truthy (audioUrl r)
                                                 then this1 \<lparr> audioFilePath := audioUrl r \<rparr>
                                                 else this1
                                     | None \<Rightarrow> this1)
                        in case getTranscript env bot_id of
                             Inl m \<Rightarrow> ([], botFailed m this2)
                           | Inr recallTranscript \<Rightarrow>
                               ((case recallTranscript of
                                   Some t \<Rightarrow> map fromRecall (rt_segments t)
                                 | None \<Rightarrow> []),
                                this2)))
      else ([], this))"

text \<open>Lines 191 to 206 of stop: the local transcription of the recorded audio.\<close>

definition transcribeLocally ::
    "StopEnv \<Rightarrow> RawTranscriptSegment list \<Rightarrow> MeetingPipelineServiceImpl
       \<Rightarrow> RawTranscriptSegment list \<times> MeetingPipelineServiceImpl" where
  "transcribeLocally env transcriptSegments this =
     (if truthy (audioFilePath this)
      then case transcribeFile env (the (audioFilePath this)) of
             Inl m \<Rightarrow>
               (transcriptSegments, console_out Warn (''Local transcription failed: '' @ m) this)
           | Inr whisperResult \<Rightarrow>
               if length (tr_segments whisperResult) > 0
               then (map fromWhisper (tr_segments whisperResult), this)
               else (transcriptSegments, this)
      else (transcriptSegments, this))"

text \<open>Lines 160 to 210: the transcript segments that stop hands to diarize.\<close>

definition collectTranscript ::
    "StopEnv \<Rightarrow> MeetingPipelineServiceImpl
       \<Rightarrow> RawTranscriptSegment list \<times> MeetingPipelineServiceImpl" where
  "collectTranscript env this =
     (let (botSegments, this1) = retrieveFromBot env this;
          this2 = setStatus Transcribing this1;
          this3 = emit Status_changed (StateData (state this2)) this2;
          (transcriptSegments, this4) = transcribeLocally env botSegments this3
      in (transcriptSegments,
          if length transcriptSegments = 0
          then console_out Warn ''No transcript data available'' this4
          else this4))"

definition buildAnalysisInput ::
    "StopEnv \<Rightarrow> MeetingPipelineServiceImpl \<Rightarrow> DiarizationResult \<Rightarrow> AnalysisInput" where
  "buildAnalysisInput env this diarizationResult =
     \<lparr> ai_meetingTitle = meetingTitle (state this),
       ai_meetingDate = (case startedAt (state this) of
                           Some t \<Rightarrow> if t = 0 then stop_now env else t
                         | None \<Rightarrow> stop_now env),
       ai_duration = ps_duration (state this),
       ai_platform = platform (state this),
       ai_participants = map (\<lambda>p. (p_id p, p_name p)) (participants diarizationResult),
       ai_transcriptSegments =
         map (\<lambda>seg. (speakerName seg, d_text seg, d_startTime seg, d_endTime seg))
           (segments diarizationResult),
       expressionData =
         concat (map (\<lambda>fp. map (\<lambda>(t, e, c). (str_or (dp_name fp) (dp_id fp), t, e, c))
                               (expressionHistory fp))
                     (getParticipants env)) \<rparr>"

text \<open>The body of the try block of stop; \<open>Inl\<close> is an exception on its way to the catch.\<close>

definition stopBody ::
    "StopEnv \<Rightarrow> MeetingPipelineServiceImpl
       \<Rightarrow> (js_error + MeetingReview) \<times> MeetingPipelineServiceImpl" where
  "stopBody env this =
     (let this1 = stopDurationTimer (stopCapture env this);
          this2 = setStatus Bot_processing this1;
          this3 = emit Status_changed (StateData (state this2)) this2;
          (transcriptSegments, this4) = collectTranscript env this3;
          this5 = setStatus Analyzing this4;
          this6 = emit Status_changed (StateData (state this5)) this5;
          visualObservations = getVisualObservations (diarization this6);
          (diarizationResult, service) =
            diarize (diarization this6) transcriptSegments visualObservations
              (case config this6 of
                 Some cfg \<Rightarrow> (case participantNames cfg of Some names \<Rightarrow> names | None \<Rightarrow> [])
               | None \<Rightarrow> []);
          this7 = this6 \<lparr> diarization := service \<rparr>;
          analysisInput = buildAnalysisInput env this7 diarizationResult;
          this8 = setStatus Generating_review this7;
          this9 = emit Status_changed (StateData (state this8)) this8
      in case generateReview env analysisInput of
           Inl m \<Rightarrow> (Inl (JsError m), this9)
         | Inr review \<Rightarrow>
             (let this10 = setStatus Complete this9;
                  this11 = this10 \<lparr> state := (state this10) \<lparr> reviewId := Some (review_id review) \<rparr> \<rparr>;
                  this12 = emit Status_changed (StateData (state this11)) this11;
                  this13 = emit Review_ready (ReviewData (review_id review) review) this12
              in (Inr review, resetState this13)))"

definition stopFailed :: "js_error \<Rightarrow> MeetingPipelineServiceImpl \<Rightarrow> MeetingPipelineServiceImpl" where
  "stopFailed err this =
     (let this1 = setStatus Error this;
          this2 = this1 \<lparr> state := (state this1) \<lparr> error := Some (message err) \<rparr> \<rparr>;
          this3 = emit Error_event (ErrorData (message err)) this2;
          this4 = emit Status_changed (StateData (state this3)) this3
      in resetState this4)"

definition stop ::
    "StopEnv \<Rightarrow> MeetingPipelineServiceImpl
       \<Rightarrow> (js_error + MeetingReview option) \<times> MeetingPipelineServiceImpl" where
  "stop env this =
     (if \<not> isActive this then (Inr None, this)
      else case stopBody env this of
             (Inr review, this') \<Rightarrow> (Inr (Some review), this')
           | (Inl err, this') \<Rightarrow> (Inr None, stopFailed err this'))"

section \<open>The attribution rule, in the words of the specification\<close>

text \<open>
  The observations that qualify for a transcript segment: inside the window
  \<open>[startTime, endTime]\<close>, flagged speaking, with a speaking confidence above 0.3 (the
  number that the literal denotes).
\<close>

definition qualifying :: "RawTranscriptSegment \<Rightarrow> VisualObservation list \<Rightarrow> VisualObservation list" where
  "qualifying seg obs =
     filter (\<lambda>v. startTime seg \<le> timestamp v \<and> timestamp v \<le> endTime seg
                 \<and> isSpeaking v \<and> speakingConfidence v > literal (3 / 10)) obs"

text \<open>The summed speaking confidence of a participant over a list of observations: the
  sum of the numbers.\<close>

definition confidenceSum :: "VisualObservation list \<Rightarrow> string \<Rightarrow> number" where
  "confidenceSum obs pid =
     sum_list (map speakingConfidence (filter (\<lambda>v. participantId v = pid) obs))"

text \<open>The same sum as double-precision arithmetic yields it when the confidences are
  added one after the other, in the order of the observations, starting from 0.\<close>

definition computedSum :: "VisualObservation list \<Rightarrow> string \<Rightarrow> number" where
  "computedSum obs pid =
     foldl fadd 0 (map speakingConfidence (filter (\<lambda>v. participantId v = pid) obs))"

text \<open>The position of the first observation of a participant in a list of observations
  (the length of the list when there is none).\<close>

definition firstSeen :: "VisualObservation list \<Rightarrow> string \<Rightarrow> nat" where
  "firstSeen obs pid = length (takeWhile (\<lambda>v. participantId v \<noteq> pid) obs)"

section \<open>Concrete scenarios\<close>

definition segmentAt :: "number \<Rightarrow> number \<Rightarrow> RawTranscriptSegment" where
  "segmentAt t0 t1 =
     \<lparr> seg_text = ''hello world'', startTime = t0, endTime = t1, speakerLabel = None,
       confidence = None \<rparr>"

definition speakingAt :: "number \<Rightarrow> string \<Rightarrow> number \<Rightarrow> VisualObservation" where
  "speakingAt t pid c =
     \<lparr> timestamp = t, participantId = pid, participantName = None, isSpeaking = True,
       speakingConfidence = c, expression = Happy, expressionConfidence = literal (4 / 5),
       headPose = None \<rparr>"

text \<open>Six observations of two participants inside one segment. The confidences of \<open>p1\<close>
  are 0.75, 0.67 and 0.43, those of \<open>p2\<close>, who is observed later, 0.54, 0.48 and 0.83.\<close>

definition sixObservations :: "VisualObservation list" where
  "sixObservations =
     [speakingAt 1 ''p1'' (literal (75 / 100)), speakingAt 2 ''p1'' (literal (67 / 100)),
      speakingAt 3 ''p1'' (literal (43 / 100)), speakingAt 4 ''p2'' (literal (54 / 100)),
      speakingAt 5 ''p2'' (literal (48 / 100)), speakingAt 6 ''p2'' (literal (83 / 100))]"



definition exampleConfig :: PipelineConfig where
  "exampleConfig =
     \<lparr> cfg_meetingUrl = ''https://meet.example/abc'', cfg_meetingTitle = ''Standup'',
       cfg_platform = ''zoom'', captureSourceId = Some ''screen:1'',
       participantNames = None, recallApiKey = None \<rparr>"

text \<open>The bot deploys; the capture backend rejects the request to start capturing.\<close>

definition captureRejectedEnv :: StartEnv where
  "captureRejectedEnv =
     \<lparr> now = 1000, createBot = Inr ''bot-1'', timerHandle = 1, electronAvailable = True,
       electronStartCapture = Some ''denied'' \<rparr>"

text \<open>The bot provider rejects the deployment.\<close>

definition deployFailsEnv :: StartEnv where
  "deployFailsEnv =
     \<lparr> now = 1000, createBot = Inl ''401'', timerHandle = 1, electronAvailable = False,
       electronStartCapture = None \<rparr>"

definition capturingPipeline :: MeetingPipelineServiceImpl where
  "capturingPipeline = snd (start captureRejectedEnv exampleConfig newPipeline)"

definition botSegment :: RecallTranscriptSegment where
  "botSegment =
     \<lparr> rt_speakerId = 1, rt_speakerName = ''Ann'', rt_text = ''from the bot'',
       rt_startTime = 0, rt_endTime = 2, rt_confidence = None \<rparr>"

definition whisperSegment :: TranscriptSegment where
  "whisperSegment =
     \<lparr> tr_speakerName = [], tr_text = ''from whisper'', tr_startTime = 0, tr_endTime = 2,
       tr_confidence = literal (4 / 5) \<rparr>"

text \<open>The bot is done at the first poll and delivers a recording with an audio URL and a
  transcript of one segment; the local transcription of the audio yields one segment too.
  The review generator answers.\<close>

definition bothTranscriptsEnv :: StopEnv where
  "bothTranscriptsEnv =
     \<lparr> stop_now = 5000, electronHasStopCapture = False, electronStopCapture = None,
       stopBot = (\<lambda>b. None),
       pollEnv = \<lparr> getBotStatus = (\<lambda>b i. Inr (Some Rb_done)), latency = (\<lambda>i. 0) \<rparr>,
       getRecording = (\<lambda>b. Inr (Some \<lparr> mediaUrl = None, audioUrl = Some ''audio.wav'' \<rparr>)),
       getTranscript = (\<lambda>b. Inr (Some \<lparr> rt_segments = [botSegment] \<rparr>)),
       transcribeFile = (\<lambda>path. Inr \<lparr> tr_segments = [whisperSegment], fullText = ''from whisper'' \<rparr>),
       getParticipants = [],
       generateReview = (\<lambda>input. Inr \<lparr> review_id = ''review-1'', summary = ''done'' \<rparr>) \<rparr>"

text \<open>The same, but the review generator rejects.\<close>

definition reviewFailsEnv :: StopEnv where
  "reviewFailsEnv = bothTranscriptsEnv \<lparr> generateReview := (\<lambda>input. Inl ''model unavailable'') \<rparr>"

text \<open>A bot that reports \<open>fatal\<close> at every poll, each poll answering at once.\<close>

definition fatalBot :: PollEnv where
  "fatalBot = \<lparr> getBotStatus = (\<lambda>b i. Inr (Some Rb_fatal)), latency = (\<lambda>i. 0) \<rparr>"

definition doneBot :: PollEnv where
  "doneBot = \<lparr> getBotStatus = (\<lambda>b i. Inr (Some Rb_done)), latency = (\<lambda>i. 0) \<rparr>"

section \<open>Properties of the diarization engine\<close>

subsection \<open>What the loop body copies and fixes\<close>

lemma diarizeSegment_copies:
  "d_text (diarizeSegment sv nm lm seg) = seg_text seg"
  "d_startTime (diarizeSegment sv nm lm seg) = startTime seg"
  "d_endTime (diarizeSegment sv nm lm seg) = endTime seg"
  "d_isSpeaking (diarizeSegment sv nm lm seg) = True"
  "audioSource (diarizeSegment sv nm lm seg) = Whisper"
  by (simp_all add: diarizeSegment_def Let_def split: prod.splits)

lemma diarize_segments:
  "segments (fst (diarize this ts vs names)) =
     map (diarizeSegment (sort_key timestamp (observations this @ vs))
            (buildSpeakerNameMap (sort_key timestamp (observations this @ vs)) names)
            (mapSpeakerLabelsToParticipants (sort_key startTime ts)
               (sort_key timestamp (observations this @ vs))))
         (sort_key startTime ts)"
  by (simp add: diarize_def Let_def)

text \<open>
  Claim C2. diarize returns exactly one diarized segment per transcript segment, and the
  output is in time order: the start times of the output ascend, the output is the input
  sorted stably by start time (text and time bounds copied), and when the input is already
  in start-time order the output is in the order of the input.
\<close>

theorem diarize_one_segment_per_input_in_time_order:
  "length (segments (fst (diarize this ts vs names))) = length ts
   \<and> sorted (map d_startTime (segments (fst (diarize this ts vs names))))
   \<and> map (\<lambda>d. (d_text d, d_startTime d, d_endTime d)) (segments (fst (diarize this ts vs names)))
       = map (\<lambda>s. (seg_text s, startTime s, endTime s)) (sort_key startTime ts)
   \<and> (sorted (map startTime ts) \<longrightarrow>
        map (\<lambda>d. (d_text d, d_startTime d, d_endTime d)) (segments (fst (diarize this ts vs names)))
          = map (\<lambda>s. (seg_text s, startTime s, endTime s)) ts)"
proof -
  let ?out = "segments (fst (diarize this ts vs names))"
  have len: "length ?out = length ts"
    by (simp add: diarize_segments)
  have starts: "map d_startTime ?out = map startTime (sort_key startTime ts)"
    by (simp add: diarize_segments diarizeSegment_copies comp_def)
  have srt: "sorted (map d_startTime ?out)"
    unfolding starts by (rule sorted_sort_key)
  have proj: "map (\<lambda>d. (d_text d, d_startTime d, d_endTime d)) ?out
       = map (\<lambda>s. (seg_text s, startTime s, endTime s)) (sort_key startTime ts)"
    by (simp add: diarize_segments diarizeSegment_copies comp_def)
  have same: "sorted (map startTime ts) \<longrightarrow>
        map (\<lambda>d. (d_text d, d_startTime d, d_endTime d)) ?out
          = map (\<lambda>s. (seg_text s, startTime s, endTime s)) ts"
    using proj by (simp add: sort_key_id_if_sorted)
  from len srt proj same show ?thesis by blast
qed

lemma twoSegments_sorted: "sorted (map startTime [segmentAt 0 1, segmentAt 1 3])"
  by (simp add: segmentAt_def)

theorem diarize_one_segment_per_input_in_time_order_witness:
  "sorted (map startTime [segmentAt 0 1, segmentAt 1 3])
   \<and> length (segments (fst (diarize \<lparr> observations = [] \<rparr> [segmentAt 0 1, segmentAt 1 3] [] []))) = 2
   \<and> map (\<lambda>d. (d_text d, d_startTime d, d_endTime d))
         (segments (fst (diarize \<lparr> observations = [] \<rparr> [segmentAt 0 1, segmentAt 1 3] [] [])))
       = [(''hello world'', 0, 1), (''hello world'', 1, 3)]"
  using diarize_one_segment_per_input_in_time_order
          [of "\<lparr> observations = [] \<rparr>" "[segmentAt 0 1, segmentAt 1 3]" "[]" "[]"]
        twoSegments_sorted
  by (simp add: segmentAt_def)

subsection \<open>Double-precision arithmetic keeps sums of positive numbers positive\<close>

lemma pow2_powi: "pow2 k = power_int 2 k"
  by (simp add: pow2_def power_int_def inverse_eq_divide power_one_over)

lemma pow2_pos: "0 < pow2 k"
  by (simp add: pow2_powi)

lemma pow2_mono: "a \<le> b \<Longrightarrow> pow2 a \<le> pow2 b"
  by (simp add: pow2_powi power_int_increasing)

lemma bitLength_bounds:
  "0 < n \<Longrightarrow> 1 \<le> bitLength n \<and> 2 ^ nat (bitLength n - 1) \<le> n \<and> n < 2 ^ nat (bitLength n)"
proof (induction n rule: bitLength.induct)
  case (1 n)
  show ?case
  proof (cases "n div 2 = 0")
    case True
    with "1.prems" have n: "n = 1" by presburger
    have "bitLength (1::int) = 1"
      by (simp add: bitLength.simps [of 1] bitLength.simps [of 0])
    with n show ?thesis by simp
  next
    case False
    with "1.prems" have m: "0 < n div 2" by presburger
    from "1.IH" [OF _ m] "1.prems"
    have ih: "1 \<le> bitLength (n div 2)" "2 ^ nat (bitLength (n div 2) - 1) \<le> n div 2"
        "n div 2 < 2 ^ nat (bitLength (n div 2))"
      by simp_all
    have bl: "bitLength n = 1 + bitLength (n div 2)"
      using "1.prems" by (simp add: bitLength.simps [of n])
    have e: "nat (bitLength (n div 2)) = Suc (nat (bitLength (n div 2) - 1))"
      using ih(1) by simp
    have lo: "2 ^ nat (bitLength (n div 2)) \<le> n"
    proof -
      have "(2::int) ^ nat (bitLength (n div 2)) = 2 * 2 ^ nat (bitLength (n div 2) - 1)"
        by (subst e) simp
      also have "\<dots> \<le> 2 * (n div 2)" using ih(2) by simp
      also have "\<dots> \<le> n" by presburger
      finally show ?thesis .
    qed
    have hi: "n < 2 * 2 ^ nat (bitLength (n div 2))"
    proof -
      have "n < 2 * (n div 2 + 1)" by presburger
      also have "\<dots> \<le> 2 * 2 ^ nat (bitLength (n div 2))" using ih(3) by simp
      finally show ?thesis .
    qed
    have n1: "nat (1 + bitLength (n div 2) - 1) = nat (bitLength (n div 2))" by simp
    have n2: "nat (1 + bitLength (n div 2)) = Suc (nat (bitLength (n div 2)))"
      using ih(1) by simp
    show ?thesis
      unfolding bl n1 n2 using ih(1) lo hi by simp
  qed
qed

lemma of_int_between_pow2:
  assumes "0 < n"
  shows "pow2 (bitLength n - 1) \<le> of_int n" and "of_int n < pow2 (bitLength n)"
proof -
  from bitLength_bounds [OF assms]
  have b: "1 \<le> bitLength n" "2 ^ nat (bitLength n - 1) \<le> n" "n < 2 ^ nat (bitLength n)"
    by simp_all
  have "pow2 (bitLength n - 1) = of_int (2 ^ nat (bitLength n - 1))"
    using b(1) by (simp add: pow2_def)
  also have "\<dots> \<le> of_int n"
    using b(2) by (simp only: of_int_le_iff)
  finally show "pow2 (bitLength n - 1) \<le> of_int n" .
  have "(of_int n :: rat) < of_int (2 ^ nat (bitLength n))"
    using b(3) by (simp only: of_int_less_iff)
  also have "\<dots> = pow2 (bitLength n)"
    using b(1) by (simp add: pow2_def)
  finally show "of_int n < pow2 (bitLength n)" .
qed

lemma exponentOf_lower:
  assumes "0 < x"
  shows "pow2 (exponentOf x) \<le> x"
proof -
  obtain p q where pq: "quotient_of x = (p, q)" by (cases "quotient_of x")
  then have q: "0 < q" and x: "x = of_int p / of_int q"
    by (rule quotient_of_denom_pos, rule quotient_of_div)
  from assms x q have p: "0 < p"
    by (simp add: zero_less_divide_iff)
  let ?e0 = "bitLength p - bitLength q"
  show ?thesis
  proof (cases "x < pow2 ?e0")
    case False
    then show ?thesis by (simp add: exponentOf_def pq Let_def)
  next
    case True
    have "pow2 (?e0 - 1) * of_int q \<le> pow2 (?e0 - 1) * pow2 (bitLength q)"
      using of_int_between_pow2(2) [OF q] pow2_pos [of "?e0 - 1"] by simp
    also have "\<dots> = pow2 (bitLength p - 1)"
      by (simp add: pow2_powi power_int_add [symmetric])
    also have "\<dots> \<le> of_int p"
      by (rule of_int_between_pow2(1) [OF p])
    finally have "pow2 (?e0 - 1) \<le> of_int p / of_int q"
      using q by (simp add: pos_le_divide_eq)
    then have "pow2 (?e0 - 1) \<le> x"
      by (simp only: x [symmetric])
    with True show ?thesis
      by (simp add: exponentOf_def pq Let_def)
  qed
qed

lemma roundTiesToEven_lower: "of_int k \<le> y \<Longrightarrow> k \<le> roundTiesToEven y"
proof -
  assume "of_int k \<le> y"
  then have "k \<le> \<lfloor>y\<rfloor>" by (simp add: le_floor_iff)
  then show ?thesis by (simp add: roundTiesToEven_def Let_def)
qed

lemma fl_nonneg: "0 \<le> x \<Longrightarrow> 0 \<le> fl x"
proof -
  assume x: "0 \<le> x"
  show ?thesis
  proof (cases "x = 0")
    case True
    then show ?thesis by (simp add: fl_def)
  next
    case False
    with x have pos: "0 < x" by simp
    let ?u = "pow2 (max (exponentOf \<bar>x\<bar>) (- 1022) - 52)"
    have "of_int 0 \<le> x / ?u"
      using pos pow2_pos [of "max (exponentOf \<bar>x\<bar>) (- 1022) - 52"] by simp
    then have "0 \<le> roundTiesToEven (x / ?u)" by (rule roundTiesToEven_lower)
    then have "0 \<le> of_int (roundTiesToEven (x / ?u)) * ?u"
      using pow2_pos [of "max (exponentOf \<bar>x\<bar>) (- 1022) - 52"] by simp
    moreover have "0 \<le> sgn x * pow2 1024"
      using pos pow2_pos [of 1024] by simp
    ultimately show ?thesis
      using False by (simp add: fl_def Let_def)
  qed
qed

lemma fl_pos: "1 / 4 \<le> x \<Longrightarrow> 0 < fl x"
proof -
  assume x: "1 / 4 \<le> x"
  then have pos: "0 < x" by simp
  let ?e = "exponentOf \<bar>x\<bar>"
  let ?u = "pow2 (max ?e (- 1022) - 52)"
  have u: "0 < ?u" by (rule pow2_pos)
  have "?u \<le> x"
  proof (cases "- 1022 \<le> ?e")
    case True
    then have "?u = pow2 (?e - 52)" by (simp add: max_def)
    also have "\<dots> \<le> pow2 ?e" by (rule pow2_mono) simp
    also have "\<dots> \<le> \<bar>x\<bar>" using pos by (intro exponentOf_lower) simp
    finally show ?thesis using pos by simp
  next
    case False
    then have "?u = pow2 (- 1074)" by (simp add: max_def)
    also have "\<dots> \<le> pow2 (- 2)" by (rule pow2_mono) simp
    also have "\<dots> = 1 / 4" by (simp add: pow2_def)
    finally show ?thesis using x by simp
  qed
  then have "of_int 1 \<le> x / ?u" using u by (simp add: pos_le_divide_eq)
  then have "1 \<le> roundTiesToEven (x / ?u)" by (rule roundTiesToEven_lower)
  then have "(1::rat) \<le> of_int (roundTiesToEven (x / ?u))" by simp
  then have "0 < of_int (roundTiesToEven (x / ?u)) * ?u"
    using u by (simp add: zero_less_mult_iff)
  moreover have "0 < sgn x * pow2 1024"
    using pos pow2_pos [of 1024] by simp
  ultimately show ?thesis
    using pos by (simp add: fl_def Let_def)
qed

lemma literal_threshold: "1 / 4 \<le> literal (3 / 10)"
  by code_simp

lemma foldl_fadd_nonneg: "\<forall>c \<in> set cs. 0 \<le> c \<Longrightarrow> 0 \<le> s \<Longrightarrow> 0 \<le> foldl fadd s cs"
  by (induction cs arbitrary: s) (simp_all add: fadd_def fl_nonneg)

lemma foldl_fadd_pos:
  assumes "cs \<noteq> []" and "\<forall>c \<in> set cs. 1 / 4 \<le> c"
  shows "0 < foldl fadd 0 cs"
proof -
  from assms(1) obtain c cs' where cs: "cs = cs' @ [c]"
    by (cases cs rule: rev_cases) auto
  have "0 \<le> foldl fadd 0 cs'"
    using assms(2) cs by (intro foldl_fadd_nonneg) auto
  moreover have "1 / 4 \<le> c"
    using assms(2) cs by simp
  ultimately have "1 / 4 \<le> foldl fadd 0 cs' + c"
    by simp
  then show ?thesis
    by (simp add: cs fadd_def fl_pos)
qed

text \<open>
  Claim C10. Every diarized segment has isSpeaking = true and audioSource = 'whisper',
  whatever the observations and wherever the transcript came from (diarize does not know
  the origin of a transcript segment).
\<close>

theorem diarized_segments_constant_fields:
  "\<forall>d \<in> set (segments (fst (diarize this ts vs names))).
     d_isSpeaking d \<and> audioSource d = Whisper"
  by (auto simp: diarize_segments diarizeSegment_copies)

theorem diarized_segments_constant_fields_witness:
  "segments (fst (diarize \<lparr> observations = [] \<rparr> [segmentAt 0 2] [] [])) \<noteq> []
   \<and> d_isSpeaking (hd (segments (fst (diarize \<lparr> observations = [] \<rparr> [segmentAt 0 2] [] []))))
   \<and> audioSource (hd (segments (fst (diarize \<lparr> observations = [] \<rparr> [segmentAt 0 2] [] [])))) = Whisper"
proof -
  let ?out = "segments (fst (diarize \<lparr> observations = [] \<rparr> [segmentAt 0 2] [] []))"
  have ne: "?out \<noteq> []"
    by (simp add: diarize_segments)
  then have "hd ?out \<in> set ?out"
    by simp
  with diarized_segments_constant_fields [of "\<lparr> observations = [] \<rparr>" "[segmentAt 0 2]" "[]" "[]"] ne
  show ?thesis by blast
qed

subsection \<open>The speaker of a visually matched segment\<close>

lemma map_of_Map_set: "map_of (Map_set m k v) = (map_of m)(k \<mapsto> v)"
  by (induction m k v rule: Map_set.induct) auto

lemma keys_Map_set:
  "map fst (Map_set m k v) = (if k \<in> fst ` set m then map fst m else map fst m @ [k])"
  by (induction m k v rule: Map_set.induct) auto

lemma num_or_zero: "num_or x 0 = (case x of None \<Rightarrow> 0 | Some c \<Rightarrow> c)"
  by (simp add: num_or_def split: option.splits)

lemma computedSum_snoc:
  "computedSum (q @ [x]) p =
     (if participantId x = p then fadd (computedSum q p) (speakingConfidence x)
      else computedSum q p)"
  by (simp add: computedSum_def)

lemma computedSum_absent: "p \<notin> participantId ` set q \<Longrightarrow> computedSum q p = 0"
proof -
  assume "p \<notin> participantId ` set q"
  then have "filter (\<lambda>v. participantId v = p) q = []"
    by (auto simp: filter_empty_conv)
  then show ?thesis by (simp add: computedSum_def)
qed

lemma scores_map_of:
  "map_of (foldl addScore [] q) p =
     (if p \<in> participantId ` set q then Some (computedSum q p) else None)"
proof (induction q rule: rev_induct)
  case Nil
  show ?case by simp
next
  case (snoc x q)
  show ?case
  proof (cases "p = participantId x")
    case True
    then show ?thesis
      using snoc [of] 
      by (auto simp: addScore_def Map_get_def map_of_Map_set num_or_zero computedSum_snoc
            computedSum_absent)
  next
    case False
    then show ?thesis
      using snoc
      by (auto simp: addScore_def Map_get_def map_of_Map_set computedSum_snoc)
  qed
qed

lemma scores_keys_set: "fst ` set (foldl addScore [] q) = participantId ` set q"
proof -
  have "dom (map_of (foldl addScore [] q)) = participantId ` set q"
    by (auto simp: scores_map_of dom_def)
  then show ?thesis by (simp add: dom_map_of_conv_image_fst)
qed


lemma firstSeen_present: "p \<in> participantId ` set q \<Longrightarrow> firstSeen q p < length q"
proof -
  assume "p \<in> participantId ` set q"
  then obtain v where v: "v \<in> set q" "participantId v = p" by auto
  have "length (takeWhile (\<lambda>v. participantId v \<noteq> p) q) \<noteq> length q"
  proof
    assume "length (takeWhile (\<lambda>v. participantId v \<noteq> p) q) = length q"
    then have "takeWhile (\<lambda>v. participantId v \<noteq> p) q = q"
      using takeWhile_eq_take [of "\<lambda>v. participantId v \<noteq> p" q] by simp
    then have "\<forall>x \<in> set q. participantId x \<noteq> p"
      by (metis (full_types) set_takeWhileD)
    with v show False by blast
  qed
  with length_takeWhile_le [of "\<lambda>v. participantId v \<noteq> p" q] show ?thesis
    by (simp add: firstSeen_def)
qed

lemma firstSeen_snoc:
  "firstSeen (q @ [x]) p =
     (if p \<in> participantId ` set q then firstSeen q p
      else if participantId x = p then length q else length q + 1)"
  by (auto simp: firstSeen_def takeWhile_append)

lemma keys_addScore:
  "map fst (addScore m x) =
     (if participantId x \<in> fst ` set m then map fst m else map fst m @ [participantId x])"
  by (simp add: addScore_def keys_Map_set)

lemma scores_keys_ordered:
  "sorted_wrt (\<lambda>a b. firstSeen q a < firstSeen q b) (map fst (foldl addScore [] q))"
proof (induction q rule: rev_induct)
  case Nil
  show ?case by simp
next
  case (snoc x q)
  let ?m = "foldl addScore [] q"
  have keys: "set (map fst ?m) = participantId ` set q"
    using scores_keys_set [of q] by simp
  have old: "sorted_wrt (\<lambda>a b. firstSeen (q @ [x]) a < firstSeen (q @ [x]) b) (map fst ?m)"
  proof (rule sorted_wrt_mono_rel [OF _ snoc.IH])
    fix a b
    assume "a \<in> set (map fst ?m)" "b \<in> set (map fst ?m)" "firstSeen q a < firstSeen q b"
    then show "firstSeen (q @ [x]) a < firstSeen (q @ [x]) b"
      using keys by (simp add: firstSeen_snoc)
  qed
  show ?case
  proof (cases "participantId x \<in> participantId ` set q")
    case True
    then show ?thesis
      using old keys by (simp add: keys_addScore)
  next
    case False
    have new: "\<forall>a \<in> set (map fst ?m). firstSeen (q @ [x]) a < firstSeen (q @ [x]) (participantId x)"
    proof
      fix a
      assume "a \<in> set (map fst ?m)"
      then have a: "a \<in> participantId ` set q"
        using keys by simp
      then have "firstSeen (q @ [x]) a = firstSeen q a"
        by (simp add: firstSeen_snoc)
      moreover have "firstSeen (q @ [x]) (participantId x) = length q"
        using False by (simp add: firstSeen_snoc)
      ultimately show "firstSeen (q @ [x]) a < firstSeen (q @ [x]) (participantId x)"
        using firstSeen_present [OF a] by simp
    qed
    have k: "map fst (foldl addScore [] (q @ [x])) = map fst ?m @ [participantId x]"
      using False scores_keys_set [of q] by (simp add: keys_addScore)
    show ?thesis
      unfolding k sorted_wrt_append using old new by simp
  qed
qed

lemma scores_keys_distinct: "distinct (map fst (foldl addScore [] q))"
proof -
  have "sorted_wrt (\<lambda>a b. a \<noteq> b) (map fst (foldl addScore [] q))"
    by (rule sorted_wrt_mono_rel [OF _ scores_keys_ordered [of q]]) auto
  then show ?thesis by (simp add: distinct_conv_nth sorted_wrt_iff_nth_less) (metis nat_neq_iff)
qed

lemma bestOf_pair: "bestOf (b, s) (k, v) = (if v > s then (k, v) else (b, s))"
  by (simp add: bestOf_def)

lemma pick_first_maximum:
  "foldl bestOf (b, s) m = (b', s') \<Longrightarrow>
     (b' = b \<and> s' = s \<and> (\<forall>(k, v) \<in> set m. v \<le> s))
     \<or> (\<exists>pre post. m = pre @ (b', s') # post \<and> s < s'
           \<and> (\<forall>(k, v) \<in> set pre. v < s') \<and> (\<forall>(k, v) \<in> set post. v \<le> s'))"
proof (induction m arbitrary: b s)
  case Nil
  then show ?case by simp
next
  case (Cons e m)
  obtain k v where e: "e = (k, v)" by (cases e)
  show ?case
  proof (cases "v > s")
    case True
    with Cons.prems e have run: "foldl bestOf (k, v) m = (b', s')"
      by (simp add: bestOf_pair)
    from Cons.IH [OF run] show ?thesis
    proof
      assume keep: "b' = k \<and> s' = v \<and> (\<forall>(k', v') \<in> set m. v' \<le> v)"
      have "e # m = [] @ (b', s') # m" using keep e by simp
      moreover have "\<forall>(k', v') \<in> set m. v' \<le> s'" using keep by auto
      ultimately show ?thesis using True keep by (intro disjI2 exI conjI) auto
    next
      assume "\<exists>pre post. m = pre @ (b', s') # post \<and> v < s'
           \<and> (\<forall>(k', v') \<in> set pre. v' < s') \<and> (\<forall>(k', v') \<in> set post. v' \<le> s')"
      then obtain pre post where d: "m = pre @ (b', s') # post" "v < s'"
          "\<forall>(k', v') \<in> set pre. v' < s'" "\<forall>(k', v') \<in> set post. v' \<le> s'" by blast
      have "e # m = (e # pre) @ (b', s') # post" using d(1) by simp
      moreover have "\<forall>(k', v') \<in> set (e # pre). v' < s'" using d(2,3) e by auto
      moreover have "s < s'" using True d(2) by simp
      ultimately show ?thesis using d(4) by blast
    qed
  next
    case False
    with Cons.prems e have run: "foldl bestOf (b, s) m = (b', s')"
      by (simp add: bestOf_pair)
    from Cons.IH [OF run] show ?thesis
    proof
      assume "b' = b \<and> s' = s \<and> (\<forall>(k, v) \<in> set m. v \<le> s)"
      then show ?thesis using False e by auto
    next
      assume "\<exists>pre post. m = pre @ (b', s') # post \<and> s < s'
           \<and> (\<forall>(k, v) \<in> set pre. v < s') \<and> (\<forall>(k, v) \<in> set post. v \<le> s')"
      then obtain pre post where d: "m = pre @ (b', s') # post" "s < s'"
          "\<forall>(k, v) \<in> set pre. v < s'" "\<forall>(k, v) \<in> set post. v \<le> s'" by blast
      have "e # m = (e # pre) @ (b', s') # post" using d(1) by simp
      moreover have "\<forall>(k', v') \<in> set (e # pre). v' < s'" using d(2,3) e False by auto
      ultimately show ?thesis using d(2,4) by blast
    qed
  qed
qed


lemma computedSum_positive:
  assumes "\<forall>v \<in> set q. 1 / 4 \<le> speakingConfidence v" and "p \<in> participantId ` set q"
  shows "0 < computedSum q p"
proof -
  let ?mine = "filter (\<lambda>v. participantId v = p) q"
  from assms(2) have "?mine \<noteq> []"
    by (auto simp: filter_empty_conv)
  then have "map speakingConfidence ?mine \<noteq> []" by simp
  moreover have "\<forall>c \<in> set (map speakingConfidence ?mine). 1 / 4 \<le> c"
    using assms(1) by auto
  ultimately show ?thesis
    unfolding computedSum_def by (rule foldl_fadd_pos)
qed

lemma scores_entry:
  "p \<in> participantId ` set q \<Longrightarrow> (p, computedSum q p) \<in> set (foldl addScore [] q)"
  by (rule map_of_SomeD) (simp add: scores_map_of)

lemma scores_value:
  "(p, s) \<in> set (foldl addScore [] q) \<Longrightarrow> p \<in> participantId ` set q \<and> s = computedSum q p"
proof -
  assume e: "(p, s) \<in> set (foldl addScore [] q)"
  then have "map_of (foldl addScore [] q) p = Some s"
    using scores_keys_distinct [of q] by simp
  then show ?thesis
    by (simp add: scores_map_of split: if_splits)
qed

lemma pickBest_first_maximum:
  assumes nonempty: "q \<noteq> []"
    and positive: "\<forall>v \<in> set q. 1 / 4 \<le> speakingConfidence v"
  shows "pickBest initial (foldl addScore [] q) \<in> participantId ` set q
     \<and> (\<forall>p \<in> participantId ` set q.
           computedSum q p \<le> computedSum q (pickBest initial (foldl addScore [] q))
           \<and> (computedSum q p = computedSum q (pickBest initial (foldl addScore [] q))
                \<longrightarrow> firstSeen q (pickBest initial (foldl addScore [] q)) \<le> firstSeen q p))"
proof -
  let ?m = "foldl addScore [] q"
  obtain b' s' where run: "foldl bestOf (initial, 0) ?m = (b', s')"
    by (cases "foldl bestOf (initial, 0) ?m")
  then have best: "pickBest initial ?m = b'"
    by (simp add: pickBest_def)
  from nonempty obtain v0 where v0: "v0 \<in> set q"
    by (cases q) auto
  then have p0: "participantId v0 \<in> participantId ` set q" by simp
  have some_positive: "\<not> (\<forall>(k, v) \<in> set ?m. v \<le> 0)"
    using scores_entry [OF p0] computedSum_positive [OF positive p0] by fastforce
  from pick_first_maximum [OF run] some_positive
  obtain pre post where d: "?m = pre @ (b', s') # post"
      "\<forall>(k, v) \<in> set pre. v < s'" "\<forall>(k, v) \<in> set post. v \<le> s'"
    by blast
  have "(b', s') \<in> set ?m" by (subst d(1)) simp
  from scores_value [OF this] have win: "b' \<in> participantId ` set q" "s' = computedSum q b'"
    by simp_all
  have ordered: "\<forall>k \<in> fst ` set post. firstSeen q b' < firstSeen q k"
    using scores_keys_ordered [of q] by (subst (asm) d(1)) (simp add: sorted_wrt_append)
  have each: "computedSum q p \<le> computedSum q b'
           \<and> (computedSum q p = computedSum q b' \<longrightarrow> firstSeen q b' \<le> firstSeen q p)"
    if p: "p \<in> participantId ` set q" for p
  proof -
    from scores_entry [OF p] have "(p, computedSum q p) \<in> set (pre @ (b', s') # post)"
      by (simp only: d(1) [symmetric])
    then consider "(p, computedSum q p) \<in> set pre" | "p = b'" | "(p, computedSum q p) \<in> set post"
      by auto
    then show ?thesis
    proof cases
      case 1
      with d(2) have "computedSum q p < s'" by auto
      then show ?thesis using win(2) by simp
    next
      case 2
      then show ?thesis by simp
    next
      case 3
      with d(3) have "computedSum q p \<le> s'" by auto
      moreover from 3 have "p \<in> fst ` set post" by force
      with ordered have "firstSeen q b' < firstSeen q p" by blast
      ultimately show ?thesis using win(2) by simp
    qed
  qed
  show ?thesis
    unfolding best using win(1) each by blast
qed

lemma diarizeSegment_matched:
  assumes "filter speaking (filter (inWindow seg) sv) \<noteq> []"
  shows "visualMatch (diarizeSegment sv nm lm seg)"
    and "d_confidence (diarizeSegment sv nm lm seg) = literal (9 / 10)"
    and "speakerId (diarizeSegment sv nm lm seg) =
           pickBest ''unknown'' (foldl addScore [] (filter speaking (filter (inWindow seg) sv)))"
  using assms by (simp_all add: diarizeSegment_def Let_def split: prod.splits)

lemma qualifying_filter: "qualifying seg sv = filter speaking (filter (inWindow seg) sv)"
  by (simp add: qualifying_def inWindow_def speaking_def conj_commute conj_left_commute cong: conj_cong)


lemma six_winner:
  "visualMatch (segments (fst (diarize \<lparr> observations = [] \<rparr> [segmentAt 0 10]
       sixObservations [])) ! 0)
   \<and> speakerId (segments (fst (diarize \<lparr> observations = [] \<rparr> [segmentAt 0 10]
       sixObservations [])) ! 0) = ''p2''"
  by code_simp

lemma six_qualifying:
  "qualifying (sort_key startTime [segmentAt 0 10] ! 0)
     (sort_key timestamp (observations \<lparr> observations = [] \<rparr> @ sixObservations))
     = sixObservations"
  by code_simp

lemma six_sums:
  "confidenceSum sixObservations ''p2'' < confidenceSum sixObservations ''p1''
   \<and> firstSeen sixObservations ''p1'' < firstSeen sixObservations ''p2''
   \<and> computedSum sixObservations ''p1'' < computedSum sixObservations ''p2''"
  by code_simp

text \<open>
  Claim C1, as the code has it. The claim as stated fails. In one segment \<open>p1\<close> is observed
  with the confidences 0.75, 0.67 and 0.43 and then \<open>p2\<close> with 0.54, 0.48 and 0.83. The
  sum of the confidences of \<open>p1\<close> is the higher one (the two sums are equal in the decimals
  the literals spell, and \<open>p1\<close> is observed first), yet the segment is attributed to \<open>p2\<close>:
  added up in double precision, the confidences of \<open>p1\<close> give 1.8499999999999999 and those
  of \<open>p2\<close> give 1.85.
\<close>

theorem rounded_sums_pick_the_other_speaker_counterexample:
  "visualMatch (segments (fst (diarize \<lparr> observations = [] \<rparr> [segmentAt 0 10]
       sixObservations [])) ! 0)
   \<and> speakerId (segments (fst (diarize \<lparr> observations = [] \<rparr> [segmentAt 0 10]
       sixObservations [])) ! 0) = ''p2''
   \<and> qualifying (sort_key startTime [segmentAt 0 10] ! 0)
       (sort_key timestamp (observations \<lparr> observations = [] \<rparr> @ sixObservations))
       = sixObservations
   \<and> confidenceSum sixObservations ''p2'' < confidenceSum sixObservations ''p1''
   \<and> firstSeen sixObservations ''p1'' < firstSeen sixObservations ''p2''"
  using six_winner six_qualifying six_sums by simp

text \<open>
  Claim C1, amended. Take the transcript segment at position \<open>i\<close> of the time-ordered
  transcript, and suppose that some observation (buffered or passed in) lies in its window,
  is flagged speaking and has a speaking confidence above 0.3. Then the diarized segment at
  position \<open>i\<close> has visualMatch = true and confidence 0.9, and its speakerId is a participant
  of the qualifying observations whose computed sum is the highest, the computed sum of a
  participant being what double-precision arithmetic yields when the participant's
  confidences are added one after the other in the order of the time-ordered qualifying
  observations; among the participants with that highest computed sum it is the one
  observed first. The computed sums need not order the participants as the exact sums do.
\<close>

theorem visual_match_attributes_to_top_computed_sum:
  assumes "i < length ts"
    and "v \<in> set (observations this) \<union> set vs"
    and "startTime (sort_key startTime ts ! i) \<le> timestamp v"
    and "timestamp v \<le> endTime (sort_key startTime ts ! i)"
    and "isSpeaking v"
    and "speakingConfidence v > literal (3 / 10)"
  shows "let d = segments (fst (diarize this ts vs names)) ! i;
             q = qualifying (sort_key startTime ts ! i) (sort_key timestamp (observations this @ vs))
         in visualMatch d \<and> d_confidence d = literal (9 / 10)
            \<and> speakerId d \<in> participantId ` set q
            \<and> (\<forall>p \<in> participantId ` set q.
                  computedSum q p \<le> computedSum q (speakerId d)
                  \<and> (computedSum q p = computedSum q (speakerId d)
                       \<longrightarrow> firstSeen q (speakerId d) \<le> firstSeen q p))"
proof -
  let ?seg = "sort_key startTime ts ! i"
  let ?sv = "sort_key timestamp (observations this @ vs)"
  let ?q = "qualifying ?seg ?sv"
  let ?d = "segments (fst (diarize this ts vs names)) ! i"
  have "v \<in> set ?sv"
    using assms(2) by simp
  then have "v \<in> set ?q"
    using assms(3-6) by (simp add: qualifying_def)
  then have nonempty: "?q \<noteq> []"
    by auto
  have positive: "\<forall>x \<in> set ?q. 1 / 4 \<le> speakingConfidence x"
    using literal_threshold by (auto simp: qualifying_def)
  have d: "?d = diarizeSegment ?sv (buildSpeakerNameMap ?sv names)
                  (mapSpeakerLabelsToParticipants (sort_key startTime ts) ?sv) ?seg"
    using assms(1) by (simp add: diarize_segments)
  from nonempty have ne: "filter speaking (filter (inWindow ?seg) ?sv) \<noteq> []"
    by (simp add: qualifying_filter)
  have vm: "visualMatch ?d" and conf: "d_confidence ?d = literal (9 / 10)"
    and sid: "speakerId ?d = pickBest ''unknown'' (foldl addScore [] ?q)"
    unfolding d qualifying_filter by (rule diarizeSegment_matched [OF ne])+
  from pickBest_first_maximum [OF nonempty positive, of "''unknown''"] vm conf
  show ?thesis
    unfolding Let_def sid by blast
qed

lemma six_hypotheses:
  "(0::nat) < length [segmentAt 0 10]"
  "speakingAt 1 ''p1'' (literal (75 / 100)) \<in> set (observations \<lparr> observations = [] \<rparr>)
      \<union> set sixObservations"
  "startTime (sort_key startTime [segmentAt 0 10] ! 0)
      \<le> timestamp (speakingAt 1 ''p1'' (literal (75 / 100)))"
  "timestamp (speakingAt 1 ''p1'' (literal (75 / 100)))
      \<le> endTime (sort_key startTime [segmentAt 0 10] ! 0)"
  "isSpeaking (speakingAt 1 ''p1'' (literal (75 / 100)))"
  "speakingConfidence (speakingAt 1 ''p1'' (literal (75 / 100))) > literal (3 / 10)"
  by code_simp+

theorem visual_match_attributes_to_top_computed_sum_witness:
  "visualMatch (segments (fst (diarize \<lparr> observations = [] \<rparr> [segmentAt 0 10]
       sixObservations [])) ! 0)
   \<and> d_confidence (segments (fst (diarize \<lparr> observations = [] \<rparr> [segmentAt 0 10]
       sixObservations [])) ! 0) = literal (9 / 10)
   \<and> computedSum sixObservations ''p1''
       \<le> computedSum sixObservations
            (speakerId (segments (fst (diarize \<lparr> observations = [] \<rparr> [segmentAt 0 10]
               sixObservations [])) ! 0))"
proof -
  have p1: "''p1'' \<in> participantId ` set sixObservations"
    by code_simp
  note th = visual_match_attributes_to_top_computed_sum
                [OF six_hypotheses, of "[]", unfolded Let_def six_qualifying]
  from th p1 show ?thesis
    by blast
qed

subsection \<open>The sum of the speaking percentages\<close>




subsection \<open>Rounding errors of the shares\<close>











subsection \<open>The percentages of the returned participants\<close>












section \<open>Properties of the orchestrator\<close>

lemma state_emit [simp]: "state (emit t d this) = state this"
  by (simp add: emit_def)

lemma state_resetState [simp]: "state (resetState this) = state this"
  by (simp add: resetState_def)

lemma status_setStatus [simp]: "status (state (setStatus st this)) = st"
  by (simp add: setStatus_def)

lemma capturingPipeline_active: "isActive capturingPipeline"
  by code_simp

text \<open>
  Claim C7. start(config) on an active orchestrator fails with the already-active error
  and changes nothing: the whole orchestrator, with its PipelineState and the log of
  emitted events, is as before the call.
\<close>

theorem start_while_active_fails_unchanged:
  "isActive this \<Longrightarrow>
     start env cfg this = (Inl (JsError ''A pipeline is already active. Stop it first.''), this)"
  by (simp add: start_def)

theorem start_while_active_fails_unchanged_witness:
  "isActive capturingPipeline
   \<and> start deployFailsEnv exampleConfig capturingPipeline
       = (Inl (JsError ''A pipeline is already active. Stop it first.''), capturingPipeline)"
  using start_while_active_fails_unchanged
          [OF capturingPipeline_active, of deployFailsEnv exampleConfig]
        capturingPipeline_active
  by simp

subsection \<open>Failures of start\<close>

lemma newPipeline_inactive: "\<not> isActive newPipeline"
  by code_simp

lemma beginSession_effects:
  "durationTimer (beginSession env cfg this) = durationTimer this"
  "liveTimers (beginSession env cfg this) = liveTimers this"
  "\<exists>first. ev_type first = Status_changed \<and>
      emitted (beginSession env cfg this) = emitted this @ [first]"
  by (simp_all add: beginSession_def Let_def emit_def)

lemma start_inactive_deploy_fails:
  assumes "\<not> isActive this" and "createBot env = Inl m"
  shows "start env cfg this =
           (Inl (JsError (''Failed to deploy bot: '' @ m)),
            startFailed (JsError (''Failed to deploy bot: '' @ m)) (beginSession env cfg this))"
  using assms by (simp add: start_def deployBot_def Let_def)

lemma start_Inl_cases:
  assumes "\<not> isActive this" and "fst (start env cfg this) = Inl err"
  shows "\<exists>m. createBot env = Inl m \<and> err = JsError (''Failed to deploy bot: '' @ m)"
  using assms by (auto simp: start_def deployBot_def Let_def split: sum.splits)

lemma startFailed_effects:
  "status (state (startFailed err this)) = Error"
  "error (state (startFailed err this)) = Some (message err)"
  "durationTimer (startFailed err this) = durationTimer this"
  "liveTimers (startFailed err this) = liveTimers this"
  "emitted (startFailed err this) =
     emitted this @ [\<lparr> ev_type = Error_event, ev_data = ErrorData (message err) \<rparr>,
                     \<lparr> ev_type = Status_changed, ev_data = StateData (state (startFailed err this)) \<rparr>]"
  by (simp_all add: startFailed_def Let_def emit_def setStatus_def)

lemma deployFails_result:
  "fst (start deployFailsEnv exampleConfig newPipeline) = Inl (JsError ''Failed to deploy bot: 401'')"
  by code_simp

text \<open>
  Claim C3, as the code has it. The claim as stated fails: a failure of capture startup is
  caught and logged inside startCapture, and start() then returns normally in the state
  capturing, with no error event and with the ticker running.
\<close>

theorem capture_startup_failure_is_not_an_error_counterexample:
  "fst (start captureRejectedEnv exampleConfig newPipeline) = Inr ()
   \<and> status (state (snd (start captureRejectedEnv exampleConfig newPipeline))) = Capturing
   \<and> error (state (snd (start captureRejectedEnv exampleConfig newPipeline))) = None
   \<and> map ev_type (emitted (snd (start captureRejectedEnv exampleConfig newPipeline)))
        = [Status_changed, Status_changed]
   \<and> console (snd (start captureRejectedEnv exampleConfig newPipeline))
        = [(Err, ''Failed to start capture: denied'')]
   \<and> durationTimer (snd (start captureRejectedEnv exampleConfig newPipeline)) = Some 1
   \<and> liveTimers (snd (start captureRejectedEnv exampleConfig newPipeline)) = [1]"
  by code_simp

text \<open>
  Claim C3, amended. When start(config) fails on an orchestrator with no active session,
  the failure is a failure of bot deployment; the orchestrator is then in the error state,
  state.error holds the message of the error thrown, an error event with that message and
  after it a status_changed event with the error state were emitted before the call
  failed, and the call started no duration ticker (the timer handle and the live timers
  are those of before the call). When the bot deploys, start() returns normally in the
  state capturing with the ticker started, whatever capture startup did.
\<close>

theorem start_failure_enters_error_state:
  "(\<not> isActive this \<and> fst (start env cfg this) = Inl err \<longrightarrow>
      (\<exists>m. createBot env = Inl m \<and> err = JsError (''Failed to deploy bot: '' @ m))
      \<and> status (state (snd (start env cfg this))) = Error
      \<and> error (state (snd (start env cfg this))) = Some (message err)
      \<and> (\<exists>first. ev_type first = Status_changed \<and>
            emitted (snd (start env cfg this)) =
              emitted this @ [first,
                              \<lparr> ev_type = Error_event, ev_data = ErrorData (message err) \<rparr>,
                              \<lparr> ev_type = Status_changed,
                                ev_data = StateData (state (snd (start env cfg this))) \<rparr>])
      \<and> durationTimer (snd (start env cfg this)) = durationTimer this
      \<and> liveTimers (snd (start env cfg this)) = liveTimers this)
   \<and> (\<not> isActive this \<and> createBot env = Inr bot_id \<longrightarrow>
        fst (start env cfg this) = Inr ()
        \<and> status (state (snd (start env cfg this))) = Capturing
        \<and> error (state (snd (start env cfg this))) = None
        \<and> durationTimer (snd (start env cfg this)) = Some (timerHandle env))"
proof -
  have fail: "(\<exists>m. createBot env = Inl m \<and> err = JsError (''Failed to deploy bot: '' @ m))
      \<and> status (state (snd (start env cfg this))) = Error
      \<and> error (state (snd (start env cfg this))) = Some (message err)
      \<and> (\<exists>first. ev_type first = Status_changed \<and>
            emitted (snd (start env cfg this)) =
              emitted this @ [first,
                              \<lparr> ev_type = Error_event, ev_data = ErrorData (message err) \<rparr>,
                              \<lparr> ev_type = Status_changed,
                                ev_data = StateData (state (snd (start env cfg this))) \<rparr>])
      \<and> durationTimer (snd (start env cfg this)) = durationTimer this
      \<and> liveTimers (snd (start env cfg this)) = liveTimers this"
    if inactive: "\<not> isActive this" and failed: "fst (start env cfg this) = Inl err"
  proof -
    from start_Inl_cases [OF inactive failed] obtain m
      where m: "createBot env = Inl m" "err = JsError (''Failed to deploy bot: '' @ m)"
      by blast
    note eq = start_inactive_deploy_fails [OF inactive m(1), of cfg]
    show ?thesis
      unfolding eq using m beginSession_effects(3) [of env cfg this]
      by (auto simp: startFailed_effects beginSession_effects)
  qed
  have ok: "fst (start env cfg this) = Inr ()
        \<and> status (state (snd (start env cfg this))) = Capturing
        \<and> error (state (snd (start env cfg this))) = None
        \<and> durationTimer (snd (start env cfg this)) = Some (timerHandle env)"
    if inactive: "\<not> isActive this" and deployed: "createBot env = Inr bot_id"
    using that
    by (simp add: start_def deployBot_def beginSession_def Let_def startDurationTimer_def
          startCapture_def setStatus_def emit_def console_out_def split: option.splits)
  from fail ok show ?thesis by blast
qed

theorem start_failure_enters_error_state_witness:
  "\<not> isActive newPipeline
   \<and> fst (start deployFailsEnv exampleConfig newPipeline) = Inl (JsError ''Failed to deploy bot: 401'')
   \<and> status (state (snd (start deployFailsEnv exampleConfig newPipeline))) = Error
   \<and> error (state (snd (start deployFailsEnv exampleConfig newPipeline)))
        = Some ''Failed to deploy bot: 401''
   \<and> durationTimer (snd (start deployFailsEnv exampleConfig newPipeline)) = None
   \<and> createBot captureRejectedEnv = Inr ''bot-1''
   \<and> status (state (snd (start captureRejectedEnv exampleConfig newPipeline))) = Capturing"
proof -
  have t: "durationTimer newPipeline = None"
    by (simp add: newPipeline_def)
  have b: "createBot captureRejectedEnv = Inr ''bot-1''"
    by (simp add: captureRejectedEnv_def)
  from start_failure_enters_error_state
         [of newPipeline deployFailsEnv exampleConfig "JsError ''Failed to deploy bot: 401''"]
       start_failure_enters_error_state
         [of newPipeline captureRejectedEnv exampleConfig _ "''bot-1''"]
       newPipeline_inactive deployFails_result t b
  show ?thesis by simp
qed

subsection \<open>The transcript handed to diarization\<close>

lemma audioFilePath_status [simp]:
  "audioFilePath (setStatus st this) = audioFilePath this"
  "audioFilePath (emit t d this) = audioFilePath this"
  by (simp_all add: setStatus_def emit_def)

lemma collectTranscript_fst:
  "fst (collectTranscript env this) =
     (if truthy (audioFilePath (snd (retrieveFromBot env this)))
      then case transcribeFile env (the (audioFilePath (snd (retrieveFromBot env this)))) of
             Inl m \<Rightarrow> fst (retrieveFromBot env this)
           | Inr whisperResult \<Rightarrow>
               if tr_segments whisperResult = [] then fst (retrieveFromBot env this)
               else map fromWhisper (tr_segments whisperResult)
      else fst (retrieveFromBot env this))"
  by (simp add: collectTranscript_def transcribeLocally_def Let_def split: prod.splits sum.splits)

lemma waitLoop_first_poll:
  "pollSaysStop (getBotStatus env b 0) \<Longrightarrow> 0 < maxWaitMs \<Longrightarrow>
     waitLoop env b t maxWaitMs t 0
       = \<lparr> returnedEarly = True, polls = 1, finishedAt = t + latency env 0 \<rparr>"
  by (simp add: waitLoop.simps)

lemma capturingPipeline_botId: "botId (state capturingPipeline) = Some ''bot-1''"
  by code_simp

lemma retrieve_example:
  "fst (retrieveFromBot bothTranscriptsEnv capturingPipeline) = [fromRecall botSegment]
   \<and> audioFilePath (snd (retrieveFromBot bothTranscriptsEnv capturingPipeline)) = Some ''audio.wav''"
  by (simp add: retrieveFromBot_def capturingPipeline_botId truthy_def bothTranscriptsEnv_def
        waitForBotProcessing_def waitLoop_first_poll pollSaysStop_def Let_def)

lemma transcribe_example:
  "transcribeFile bothTranscriptsEnv ''audio.wav''
     = Inr \<lparr> tr_segments = [whisperSegment], fullText = ''from whisper'' \<rparr>"
  by (simp add: bothTranscriptsEnv_def)

text \<open>
  Claim C5, as the code has it. The claim as stated fails: the bot delivers a transcript
  of one segment and a recording with an audio URL, the local transcription of that audio
  yields one segment, and the segment handed to diarization is the local one.
\<close>

theorem local_transcript_replaces_bot_transcript_counterexample:
  "fst (retrieveFromBot bothTranscriptsEnv capturingPipeline) = [fromRecall botSegment]
   \<and> fst (collectTranscript bothTranscriptsEnv capturingPipeline) = [fromWhisper whisperSegment]
   \<and> seg_text (fromRecall botSegment) = ''from the bot''
   \<and> seg_text (fromWhisper whisperSegment) = ''from whisper''"
  using retrieve_example transcribe_example
  by (simp add: collectTranscript_fst truthy_def fromWhisper_def fromRecall_def
        whisperSegment_def botSegment_def)

text \<open>
  Claim C5, amended. During stop(), the recorded audio is transcribed locally whenever an
  audio path is known after the bot phase, whether or not the bot transcript is empty. The
  segments handed to diarization are those of the local transcription when it succeeds
  with at least one segment; they are the bot's (possibly none) when no audio path is
  known, when the local transcription fails, or when it yields no segment.
\<close>

theorem local_transcript_preferred_when_nonempty:
  "(truthy (audioFilePath (snd (retrieveFromBot env this)))
      \<and> transcribeFile env (the (audioFilePath (snd (retrieveFromBot env this)))) = Inr whisperResult
      \<and> tr_segments whisperResult \<noteq> []
     \<longrightarrow> fst (collectTranscript env this) = map fromWhisper (tr_segments whisperResult))
   \<and> (\<not> truthy (audioFilePath (snd (retrieveFromBot env this)))
     \<longrightarrow> fst (collectTranscript env this) = fst (retrieveFromBot env this))
   \<and> (transcribeFile env (the (audioFilePath (snd (retrieveFromBot env this)))) = Inl m
     \<longrightarrow> fst (collectTranscript env this) = fst (retrieveFromBot env this))
   \<and> (transcribeFile env (the (audioFilePath (snd (retrieveFromBot env this)))) = Inr whisperResult
      \<and> tr_segments whisperResult = []
     \<longrightarrow> fst (collectTranscript env this) = fst (retrieveFromBot env this))"
  by (simp add: collectTranscript_fst)

theorem local_transcript_preferred_when_nonempty_witness:
  "truthy (audioFilePath (snd (retrieveFromBot bothTranscriptsEnv capturingPipeline)))
   \<and> transcribeFile bothTranscriptsEnv ''audio.wav''
        = Inr \<lparr> tr_segments = [whisperSegment], fullText = ''from whisper'' \<rparr>
   \<and> fst (collectTranscript bothTranscriptsEnv capturingPipeline) = [fromWhisper whisperSegment]"
  using local_transcript_preferred_when_nonempty
          [of bothTranscriptsEnv capturingPipeline
              "\<lparr> tr_segments = [whisperSegment], fullText = ''from whisper'' \<rparr>"]
        retrieve_example transcribe_example
  by (simp add: truthy_def)

subsection \<open>Exceptions of start and stop\<close>

lemma start_raises_iff:
  "isl (fst (start env cfg this)) = (isActive this \<or> isl (createBot env))"
  by (simp add: start_def deployBot_def Let_def split: sum.splits)

lemma stop_never_raises: "\<not> isl (fst (stop env this))"
  by (simp add: stop_def split: prod.splits sum.splits)

lemma stopBody_Inr: "stopBody env this = (Inr review, this') \<Longrightarrow> status (state this') = Complete"
  by (auto simp: stopBody_def Let_def split: prod.splits sum.splits)

lemma stopFailed_status: "status (state (stopFailed err this)) = Error"
  by (simp add: stopFailed_def Let_def)

lemma stop_constant_generator:
  "isActive this \<Longrightarrow> (\<And>input. generateReview env input = answer) \<Longrightarrow>
     fst (stop env this) = (case answer of Inl m \<Rightarrow> Inr None | Inr review \<Rightarrow> Inr (Some review))"
  by (simp add: stop_def stopBody_def Let_def split: prod.splits sum.splits)

lemma stop_inactive: "\<not> isActive this \<Longrightarrow> stop env this = (Inr None, this)"
  by (simp add: stop_def)

lemma stop_examples:
  "fst (stop bothTranscriptsEnv capturingPipeline)
     = Inr (Some \<lparr> review_id = ''review-1'', summary = ''done'' \<rparr>)"
  "fst (stop reviewFailsEnv capturingPipeline) = Inr None"
  using stop_constant_generator
          [OF capturingPipeline_active, of bothTranscriptsEnv
              "Inr \<lparr> review_id = ''review-1'', summary = ''done'' \<rparr>"]
        stop_constant_generator
          [OF capturingPipeline_active, of reviewFailsEnv "Inl ''model unavailable''"]
  by (simp_all add: bothTranscriptsEnv_def reviewFailsEnv_def)

text \<open>
  Claim C6, as the code has it. The claim as stated fails for start(): a failed bot
  deployment is rethrown to the caller, and so is the already-active error.
\<close>

theorem start_raises_to_caller_counterexample:
  "fst (start deployFailsEnv exampleConfig newPipeline) = Inl (JsError ''Failed to deploy bot: 401'')
   \<and> fst (start captureRejectedEnv exampleConfig capturingPipeline)
        = Inl (JsError ''A pipeline is already active. Stop it first.'')"
  by code_simp

text \<open>
  Claim C6, amended. stop() raises no exception to its caller: it returns a review, and
  the state is then complete, or it returns null, and the state is then error (or, when no
  session was active, the orchestrator is untouched). start() does raise: it throws exactly
  when a session is already active or the bot deployment fails.
\<close>

theorem stop_never_raises_start_raises_on_failure:
  "\<not> isl (fst (stop env this))
   \<and> (fst (stop env this) = Inr (Some review) \<longrightarrow> status (state (snd (stop env this))) = Complete)
   \<and> (fst (stop env this) = Inr None \<longrightarrow>
        (if isActive this then status (state (snd (stop env this))) = Error
         else snd (stop env this) = this))
   \<and> (isl (fst (start env' cfg this)) = (isActive this \<or> isl (createBot env')))"
proof -
  have a: "\<not> isl (fst (stop env this))"
    by (rule stop_never_raises)
  have b: "fst (stop env this) = Inr (Some review) \<longrightarrow> status (state (snd (stop env this))) = Complete"
    by (auto simp: stop_def stopBody_Inr split: prod.splits sum.splits if_splits)
  have c: "fst (stop env this) = Inr None \<longrightarrow>
        (if isActive this then status (state (snd (stop env this))) = Error
         else snd (stop env this) = this)"
    by (auto simp: stop_def stopFailed_status split: prod.splits sum.splits)
  from a b c start_raises_iff show ?thesis by blast
qed

theorem stop_never_raises_start_raises_on_failure_witness:
  "fst (stop bothTranscriptsEnv capturingPipeline)
     = Inr (Some \<lparr> review_id = ''review-1'', summary = ''done'' \<rparr>)
   \<and> status (state (snd (stop bothTranscriptsEnv capturingPipeline))) = Complete
   \<and> fst (stop reviewFailsEnv capturingPipeline) = Inr None
   \<and> isActive capturingPipeline
   \<and> status (state (snd (stop reviewFailsEnv capturingPipeline))) = Error
   \<and> fst (stop reviewFailsEnv newPipeline) = Inr None
   \<and> snd (stop reviewFailsEnv newPipeline) = newPipeline"
  using stop_never_raises_start_raises_on_failure
          [of bothTranscriptsEnv capturingPipeline "\<lparr> review_id = ''review-1'', summary = ''done'' \<rparr>"]
        stop_never_raises_start_raises_on_failure [of reviewFailsEnv capturingPipeline]
        stop_never_raises_start_raises_on_failure [of reviewFailsEnv newPipeline]
        stop_examples capturingPipeline_active newPipeline_inactive
        stop_inactive [OF newPipeline_inactive, of reviewFailsEnv]
  by simp

subsection \<open>The polling loop\<close>

text \<open>
  Claim C4. The loop tests the bot status against done and error only. A bot that reports
  fatal at every poll is polled 40 times, 3000 milliseconds apart, until the ceiling of
  120000 milliseconds is reached; the call then logs the warning and returns. A bot that
  reports done is left at the first poll.
\<close>

theorem fatal_bot_is_polled_until_the_ceiling:
  "waitForBotProcessing fatalBot ''bot-1'' 5000 120000 capturingPipeline
     = (\<lparr> returnedEarly = False, polls = 40, finishedAt = 125000 \<rparr>,
        console_out Warn ''Bot processing timed out'' capturingPipeline)
   \<and> waitForBotProcessing doneBot ''bot-1'' 5000 120000 capturingPipeline
     = (\<lparr> returnedEarly = True, polls = 1, finishedAt = 5000 \<rparr>, capturingPipeline)"
  by (simp add: waitForBotProcessing_def waitLoop.simps fatalBot_def doneBot_def pollSaysStop_def)

end
